theory Spec2Isabelle
  imports Complex_Main
begin

section \<open>Numbers and vectors\<close>

text \<open>
  JavaScript numbers are modelled as reals: every timer, the battery level and every
  coordinate is a \<^typ>\<open>real\<close>, and the comparisons of the source are the comparisons
  of the reals. A \<^verbatim>\<open>THREE.Vector3\<close> is a record of three reals; the few vector
  operations the game logic calls are written out as three.js defines them.
\<close>

record vec3 =
  vx :: real
  vy :: real
  vz :: real

definition vec :: "real \<Rightarrow> real \<Rightarrow> real \<Rightarrow> vec3" where
  "vec a b c = \<lparr>vx = a, vy = b, vz = c\<rparr>"

definition subVectors :: "vec3 \<Rightarrow> vec3 \<Rightarrow> vec3" where
  "subVectors a b = vec (vx a - vx b) (vy a - vy b) (vz a - vz b)"

definition vlength :: "vec3 \<Rightarrow> real" where
  "vlength v = sqrt (vx v * vx v + vy v * vy v + vz v * vz v)"

definition multiplyScalar :: "real \<Rightarrow> vec3 \<Rightarrow> vec3" where
  "multiplyScalar s v = vec (vx v * s) (vy v * s) (vz v * s)"

text \<open>\<^verbatim>\<open>normalize()\<close> is \<^verbatim>\<open>divideScalar(this.length() || 1)\<close>: a zero vector is
  divided by 1.\<close>

definition normalize :: "vec3 \<Rightarrow> vec3" where
  "normalize v = multiplyScalar (1 / (if vlength v = 0 then 1 else vlength v)) v"

definition dot :: "vec3 \<Rightarrow> vec3 \<Rightarrow> real" where
  "dot a b = vx a * vx b + vy a * vy b + vz a * vz b"

definition lerp :: "vec3 \<Rightarrow> vec3 \<Rightarrow> real \<Rightarrow> vec3" where
  "lerp p v alpha =
     vec (vx p + (vx v - vx p) * alpha) (vy p + (vy v - vy p) * alpha)
         (vz p + (vz v - vz p) * alpha)"

definition distanceTo :: "vec3 \<Rightarrow> vec3 \<Rightarrow> real" where
  "distanceTo p v = vlength (subVectors p v)"


section \<open>The flashlight (flashlight.js)\<close>

text \<open>The \<^verbatim>\<open>CONFIG\<close> object.\<close>

definition maxBattery :: real where "maxBattery = 6"
definition drainRate :: real where "drainRate = 3"
definition rechargeDelay :: real where "rechargeDelay = 5"
definition passiveRechargeSpeed :: real where "passiveRechargeSpeed = 0.5"

text \<open>
  The state of a \<^verbatim>\<open>FlashlightSystem\<close>. Besides the five logical fields the record
  keeps the two presentation values the methods write and a later method could see:
  \<open>buttonX\<close> is \<^verbatim>\<open>buttonMesh.position.x\<close> and \<open>intensity\<close> is
  \<^verbatim>\<open>lightSource.intensity\<close>. The bulb material, the battery bars and the position
  of the light source are write-only presentation and are left out.
\<close>

record flashlight =
  isOn :: bool
  isDepleted :: bool
  battery :: real
  usageTimer :: real
  rechargeTimer :: real
  buttonX :: real
  intensity :: real

definition buttonBaseX :: real where "buttonBaseX = - 0.055"

text \<open>The constructor; the spot light it is given was created with intensity 0.\<close>

definition newFlashlight :: flashlight where
  "newFlashlight =
     \<lparr>isOn = False, isDepleted = False, battery = maxBattery, usageTimer = 0,
      rechargeTimer = 0, buttonX = buttonBaseX, intensity = 0\<rparr>"

definition pressButton :: "flashlight \<Rightarrow> flashlight" where
  "pressButton f = f\<lparr>buttonX := buttonBaseX + 0.005\<rparr>"

definition turnOffVisuals :: "flashlight \<Rightarrow> flashlight" where
  "turnOffVisuals f = f\<lparr>intensity := 0\<rparr>"

definition triggerDepletion :: "flashlight \<Rightarrow> flashlight" where
  "triggerDepletion f = turnOffVisuals (f\<lparr>isOn := False, isDepleted := True\<rparr>)"

definition consumeBatteryStep :: "flashlight \<Rightarrow> flashlight" where
  "consumeBatteryStep f =
     (let f1 = f\<lparr>battery := battery f - 1\<rparr>
      in if battery f1 \<le> 0 then triggerDepletion (f1\<lparr>battery := 0\<rparr>) else f1)"

text \<open>
  In \<^verbatim>\<open>toggle\<close> the test \<^verbatim>\<open>if (this.isOn)\<close> is made right after the flip, before
  \<^verbatim>\<open>consumeBatteryStep\<close> runs; the assignments to \<^verbatim>\<open>usageTimer\<close> and to the light
  intensity follow the battery step whatever it did.
\<close>

definition toggle :: "flashlight \<Rightarrow> flashlight" where
  "toggle f =
     (if \<not> isOn f \<and> battery f < 1 then f
      else let f1 = f\<lparr>isOn := \<not> isOn f\<rparr>
           in if isOn f1 then (consumeBatteryStep f1)\<lparr>usageTimer := 0, intensity := 150\<rparr>
              else turnOffVisuals f1)"

definition releaseButton :: "flashlight \<Rightarrow> flashlight" where
  "releaseButton f =
     (let f1 = f\<lparr>buttonX := buttonBaseX\<rparr>
      in if \<not> isDepleted f1 then toggle f1 else f1)"

definition update :: "real \<Rightarrow> flashlight \<Rightarrow> flashlight" where
  "update dt f =
     (let f1 = (if isDepleted f then turnOffVisuals (f\<lparr>isOn := False\<rparr>) else f)
      in if isDepleted f1 then
           (let f2 = f1\<lparr>rechargeTimer := rechargeTimer f1 + dt\<rparr>
            in if rechargeTimer f2 \<ge> rechargeDelay
               then f2\<lparr>battery := 1.1, isDepleted := False, rechargeTimer := 0\<rparr>
               else f2)
         else if isOn f1 then
           (let f2 = f1\<lparr>usageTimer := usageTimer f1 + dt\<rparr>
            in if usageTimer f2 \<ge> drainRate
               then (consumeBatteryStep f2)\<lparr>usageTimer := 0\<rparr>
               else f2)
         else if battery f1 < maxBattery then
           (let f2 = f1\<lparr>battery := battery f1 + passiveRechargeSpeed * dt\<rparr>
            in if battery f2 > maxBattery then f2\<lparr>battery := maxBattery\<rparr> else f2)
         else f1)"

text \<open>A sequence of calls on one flashlight.\<close>

datatype flOp = PressButton | ReleaseButton | Toggle | Update real

fun flStep :: "flashlight \<Rightarrow> flOp \<Rightarrow> flashlight" where
  "flStep f PressButton = pressButton f"
| "flStep f ReleaseButton = releaseButton f"
| "flStep f Toggle = toggle f"
| "flStep f (Update dt) = update dt f"

definition flRun :: "flashlight \<Rightarrow> flOp list \<Rightarrow> flashlight" where
  "flRun f ops = foldl flStep f ops"

fun nonnegOp :: "flOp \<Rightarrow> bool" where
  "nonnegOp (Update dt) = (0 \<le> dt)"
| "nonnegOp _ = True"


section \<open>The ghost (enemy.js)\<close>

datatype phase = Wander | Approach | Stalk | Attack | Retreat

text \<open>
  A door side as the ghost's code holds it: the strings \<^verbatim>\<open>'none'\<close>, \<^verbatim>\<open>'left'\<close> and
  \<^verbatim>\<open>'right'\<close>, and \<^verbatim>\<open>undefined\<close>, which an array read out of range would give.
\<close>

datatype side = SideNone | SideLeft | SideRight | SideUndefined

text \<open>
  The module state of enemy.js: the object \<^verbatim>\<open>ghostState\<close> and the variable
  \<^verbatim>\<open>ghostMesh\<close>. \<open>loaded\<close> says that \<^verbatim>\<open>ghostMesh\<close> has been assigned by the model
  loader, and \<open>position\<close> is \<^verbatim>\<open>ghostMesh.position\<close>, read and written only when
  \<open>loaded\<close> holds. The fields \<^verbatim>\<open>targetX\<close>, \<^verbatim>\<open>speed\<close> and \<^verbatim>\<open>timer\<close> of the source
  object are never used and are left out, and so are the colour of the mesh, its
  orientation and the dust particles.
\<close>

record ghost =
  loaded :: bool
  position :: vec3
  phase :: phase
  attackSide :: side
  wanderTimer :: real
  rngCheckTimer :: real
  stalkTimer :: real
  exposureTimer :: real

text \<open>The object \<^verbatim>\<open>gameState\<close> of the main module.\<close>

record game =
  isPlaying :: bool
  leftOpen :: bool
  rightOpen :: bool
  leftBroken :: bool
  rightBroken :: bool
  isGameOver :: bool
  flashlightOn :: bool

text \<open>
  What one rendered frame reads from outside the game logic: the clock's delta, the
  camera's position and world direction, \<^verbatim>\<open>Date.now()\<close>, and the first and the second
  value \<^verbatim>\<open>Math.random()\<close> returns inside \<^verbatim>\<open>updateEnemy\<close> (no path draws more than
  two).
\<close>

record frame =
  delta :: real
  camPos :: vec3
  camDir :: vec3
  dateNow :: real
  random1 :: real
  random2 :: real

definition moveX :: "real \<Rightarrow> ghost \<Rightarrow> ghost" where
  "moveX a g = g\<lparr>position := (position g)\<lparr>vx := a\<rparr>\<rparr>"

definition moveY :: "real \<Rightarrow> ghost \<Rightarrow> ghost" where
  "moveY a g = g\<lparr>position := (position g)\<lparr>vy := a\<rparr>\<rparr>"

definition moveZ :: "real \<Rightarrow> ghost \<Rightarrow> ghost" where
  "moveZ a g = g\<lparr>position := (position g)\<lparr>vz := a\<rparr>\<rparr>"

definition teleportToDoor :: "side \<Rightarrow> ghost \<Rightarrow> ghost" where
  "teleportToDoor s g =
     g\<lparr>phase := Stalk, attackSide := s, stalkTimer := 0, exposureTimer := 0,
       position := vec (if s = SideLeft then - 18 else 18) 4 (- 2)\<rparr>"

definition triggerNormalAttack :: "frame \<Rightarrow> game \<Rightarrow> ghost \<Rightarrow> ghost" where
  "triggerNormalAttack fr gs g =
     (let g1 = g\<lparr>phase := Approach\<rparr>;
          currentX = vx (position g1)
      in if leftOpen gs \<and> \<not> rightOpen gs then g1\<lparr>attackSide := SideLeft\<rparr>
         else if rightOpen gs \<and> \<not> leftOpen gs then g1\<lparr>attackSide := SideRight\<rparr>
         else if leftOpen gs \<and> rightOpen gs then
           (let nearSide = (if currentX < 0 then SideLeft else SideRight)
            in g1\<lparr>attackSide :=
                 (if random2 fr < 0.64 then nearSide
                  else if nearSide = SideLeft then SideRight else SideLeft)\<rparr>)
         else g1\<lparr>attackSide := (if currentX < 0 then SideLeft else SideRight)\<rparr>)"

definition availableDoors :: "game \<Rightarrow> side list" where
  "availableDoors gs =
     (if leftOpen gs then [SideLeft] else []) @ (if rightOpen gs then [SideRight] else [])"

text \<open>\<^verbatim>\<open>availableDoors[Math.floor(r * availableDoors.length)]\<close>; a read outside the array
  gives \<^verbatim>\<open>undefined\<close>.\<close>

definition chosenSide :: "side list \<Rightarrow> real \<Rightarrow> side" where
  "chosenSide ds r =
     (let i = \<lfloor>r * real (length ds)\<rfloor>
      in if 0 \<le> i \<and> i < int (length ds) then ds ! nat i else SideUndefined)"

definition handleWanderPhase :: "frame \<Rightarrow> game \<Rightarrow> ghost \<Rightarrow> ghost" where
  "handleWanderPhase fr gs g =
     (let g1 = moveZ (- 20) g
      in if flashlightOn gs then
           (let g2 = g1\<lparr>wanderTimer := wanderTimer g1 + delta fr * 0.5\<rparr>;
                g3 = moveX (sin (wanderTimer g2) * 8) g2
            in if random1 fr < 0.005 \<and> \<bar>vx (position g3)\<bar> > 6
               then triggerNormalAttack fr gs g3 else g3)
         else
           (let g2 = g1\<lparr>wanderTimer := wanderTimer g1 + delta fr * 0.5\<rparr>;
                g3 = moveX (sin (wanderTimer g2) * 8) g2;
                g4 = g3\<lparr>rngCheckTimer := rngCheckTimer g3 + delta fr\<rparr>
            in if rngCheckTimer g4 > 1.5 then
                 (let g5 = g4\<lparr>rngCheckTimer := 0\<rparr>
                  in if random1 fr < 0.5 then
                       (if length (availableDoors gs) > 0
                        then teleportToDoor (chosenSide (availableDoors gs) (random2 fr)) g5
                        else g5)
                     else g5)
               else g4))"

text \<open>The value of the local variable \<^verbatim>\<open>isIrradiated\<close> of \<^verbatim>\<open>handleStalkPhase\<close>.\<close>

definition isIrradiated :: "frame \<Rightarrow> game \<Rightarrow> ghost \<Rightarrow> bool" where
  "isIrradiated fr gs g =
     (flashlightOn gs \<and>
      dot (camDir fr) (normalize (subVectors (position g) (camPos fr))) > 0.9)"

definition handleStalkPhase :: "frame \<Rightarrow> game \<Rightarrow> ghost \<Rightarrow> ghost" where
  "handleStalkPhase fr gs g =
     (let g1 = g\<lparr>stalkTimer := stalkTimer g + delta fr\<rparr>;
          g2 = (if isIrradiated fr gs g1 then
                  (let g3 = g1\<lparr>exposureTimer := exposureTimer g1 + delta fr\<rparr>;
                       g4 = moveX (vx (position g3) + (random1 fr - 0.5) * 0.1) g3;
                       g5 = moveY (vy (position g4) + (random2 fr - 0.5) * 0.1) g4
                   in if exposureTimer g5 \<ge> 2 then g5\<lparr>phase := Retreat\<rparr> else g5)
                else g1)
      in if stalkTimer g2 \<ge> 4 \<and> exposureTimer g2 < 2 then g2\<lparr>phase := Attack\<rparr> else g2)"

definition handleApproachPhase :: "frame \<Rightarrow> game \<Rightarrow> ghost \<Rightarrow> ghost" where
  "handleApproachPhase fr gs g =
     (let targetDoorX = (if attackSide g = SideLeft then - 18 else 18);
          cornerZ = - 18;
          doorZ = - 5
      in if vz (position g) < cornerZ then
           (let g1 = moveZ (vz (position g) + delta fr * 3) g
            in moveX (vx (position g1) + (targetDoorX - vx (position g1)) * delta fr * 2) g1)
         else if vz (position g) < doorZ then
           (let g1 = moveX targetDoorX g
            in moveZ (vz (position g1) + delta fr * 3) g1)
         else
           (let isDoorOpen = (if attackSide g = SideLeft then leftOpen gs else rightOpen gs)
            in if isDoorOpen then g\<lparr>phase := Attack\<rparr> else g\<lparr>phase := Retreat\<rparr>))"

text \<open>
  \<^verbatim>\<open>handleAttackPhase\<close> returns, beside the ghost, the number of times it has invoked
  \<^verbatim>\<open>gameOverCallback\<close>. The only caller passes the function \<^verbatim>\<open>onGameOver\<close>, so the
  \<^verbatim>\<open>typeof\<close> test of the source always succeeds.
\<close>

definition handleAttackPhase :: "frame \<Rightarrow> ghost \<Rightarrow> ghost \<times> nat" where
  "handleAttackPhase fr g =
     (let g1 = g\<lparr>position := lerp (position g) (camPos fr) (delta fr * 8)\<rparr>;
          dist = distanceTo (position g1) (camPos fr)
      in if dist < 0.5 then (g1, 1) else (g1, 0))"

definition handleRetreatPhase :: "frame \<Rightarrow> ghost \<Rightarrow> ghost" where
  "handleRetreatPhase fr g =
     (let g1 = moveZ (vz (position g) - delta fr * 10) g
      in if vz (position g1) < - 25 then
           (let g2 = moveZ (- 20) (g1\<lparr>phase := Wander\<rparr>)
            in if attackSide g2 = SideLeft
               then (moveX (- 8) g2)\<lparr>wanderTimer := - pi / 2\<rparr>
               else (moveX 8 g2)\<lparr>wanderTimer := pi / 2\<rparr>)
         else g1)"

definition updateEnemy :: "frame \<Rightarrow> game \<Rightarrow> ghost \<Rightarrow> ghost \<times> nat" where
  "updateEnemy fr gs g =
     (if \<not> loaded g then (g, 0)
      else let g1 = (if phase g \<noteq> Attack \<and> phase g \<noteq> Stalk
                     then moveY (4 + sin (dateNow fr * 0.001 * 2) * 0.5) g else g)
           in case phase g1 of
                Wander \<Rightarrow> (handleWanderPhase fr gs g1, 0)
              | Approach \<Rightarrow> (handleApproachPhase fr gs g1, 0)
              | Stalk \<Rightarrow> (handleStalkPhase fr gs g1, 0)
              | Attack \<Rightarrow> handleAttackPhase fr g1
              | Retreat \<Rightarrow> (handleRetreatPhase fr g1, 0))"

definition resetEnemy :: "ghost \<Rightarrow> ghost" where
  "resetEnemy g =
     (let g1 = g\<lparr>phase := Wander, stalkTimer := 0, exposureTimer := 0\<rparr>
      in if loaded g1 then g1\<lparr>position := vec 0 4 (- 20)\<rparr> else g1)"

definition isGhostBlockingDoor :: "side \<Rightarrow> ghost \<Rightarrow> bool" where
  "isGhostBlockingDoor s g = (phase g = Stalk \<and> attackSide g = s)"

definition onGhostHitByDoor :: "ghost \<Rightarrow> ghost" where
  "onGhostHitByDoor g = g\<lparr>phase := Retreat, stalkTimer := 0, exposureTimer := 0\<rparr>"

text \<open>The module state before the model has loaded; the loader callback of
  \<^verbatim>\<open>initEnemy\<close> assigns the mesh and places it.\<close>

definition initGhost :: ghost where
  "initGhost =
     \<lparr>loaded = False, position = vec 0 5 (- 20), phase = Wander, attackSide = SideNone,
      wanderTimer = 0, rngCheckTimer = 0, stalkTimer = 0, exposureTimer = 0\<rparr>"

definition ghostModelLoaded :: "ghost \<Rightarrow> ghost" where
  "ghostModelLoaded g = g\<lparr>loaded := True, position := vec 0 5 (- 20)\<rparr>"


section \<open>The session (main module)\<close>

text \<open>
  The three pieces of mutable state the game logic shares. The camera is moved by the
  mouse and by the screen shake outside the logic; each frame reads its pose from the
  \<^typ>\<open>frame\<close>.
\<close>

record world =
  gameState :: game
  flashlightSystem :: flashlight
  ghostState :: ghost

definition initGame :: game where
  "initGame =
     \<lparr>isPlaying = False, leftOpen = True, rightOpen = True, leftBroken = False,
      rightBroken = False, isGameOver = False, flashlightOn = False\<rparr>"

definition initWorld :: world where
  "initWorld =
     \<lparr>gameState = initGame, flashlightSystem = newFlashlight, ghostState = initGhost\<rparr>"

definition triggerDoorBreak :: "side \<Rightarrow> world \<Rightarrow> world" where
  "triggerDoorBreak s w =
     (let gs = gameState w;
          gs1 = (if s = SideLeft then gs\<lparr>leftBroken := True\<rparr> else gs);
          gs2 = (if s = SideRight then gs1\<lparr>rightBroken := True\<rparr> else gs1);
          gs3 = (if s = SideLeft then gs2\<lparr>leftOpen := True\<rparr> else gs2);
          gs4 = (if s = SideRight then gs3\<lparr>rightOpen := True\<rparr> else gs3)
      in w\<lparr>gameState := gs4, ghostState := onGhostHitByDoor (ghostState w)\<rparr>)"

datatype key = KeyQ | KeyE | KeyOther

text \<open>The \<^verbatim>\<open>keydown\<close> listener of \<^verbatim>\<open>setupInputs\<close>.\<close>

definition keydown :: "key \<Rightarrow> world \<Rightarrow> world" where
  "keydown k w =
     (let gs = gameState w
      in if \<not> isPlaying gs \<or> isGameOver gs then w
         else case k of
           KeyQ \<Rightarrow>
             (if leftBroken gs then w
              else if leftOpen gs \<and> isGhostBlockingDoor SideLeft (ghostState w)
              then triggerDoorBreak SideLeft w
              else (let gs1 = gs\<lparr>leftOpen := \<not> leftOpen gs\<rparr>
                    in w\<lparr>gameState :=
                         (if \<not> leftOpen gs1 \<and> \<not> rightOpen gs1
                          then gs1\<lparr>rightOpen := True\<rparr> else gs1)\<rparr>))
         | KeyE \<Rightarrow>
             (if rightBroken gs then w
              else if rightOpen gs \<and> isGhostBlockingDoor SideRight (ghostState w)
              then triggerDoorBreak SideRight w
              else (let gs1 = gs\<lparr>rightOpen := \<not> rightOpen gs\<rparr>
                    in w\<lparr>gameState :=
                         (if \<not> rightOpen gs1 \<and> \<not> leftOpen gs1
                          then gs1\<lparr>leftOpen := True\<rparr> else gs1)\<rparr>))
         | KeyOther \<Rightarrow> w)"

definition onGameOver :: "game \<Rightarrow> game" where
  "onGameOver gs = gs\<lparr>isPlaying := False, isGameOver := True\<rparr>"

definition restartGame :: "world \<Rightarrow> world" where
  "restartGame w =
     (let gs = (gameState w)\<lparr>isGameOver := False, isPlaying := False, leftOpen := True,
                 rightOpen := True, leftBroken := False, rightBroken := False\<rparr>;
          f1 = (flashlightSystem w)\<lparr>battery := 6, isDepleted := False\<rparr>;
          f2 = (if isOn f1 then toggle f1 else f1)
      in \<lparr>gameState = gs, flashlightSystem = f2, ghostState = resetEnemy (ghostState w)\<rparr>)"

text \<open>
  One run of \<^verbatim>\<open>animate\<close>: the new state, and the number of times \<^verbatim>\<open>onGameOver\<close> was
  invoked during the frame. The callback runs inside \<^verbatim>\<open>updateEnemy\<close>, which does not
  read \<^verbatim>\<open>gameState\<close> after it, so its effect is applied to the state afterwards.
\<close>

definition animate :: "frame \<Rightarrow> world \<Rightarrow> world \<times> nat" where
  "animate fr w =
     (let f1 = update (delta fr) (flashlightSystem w);
          gs1 = (gameState w)\<lparr>flashlightOn := isOn f1\<rparr>
      in if isPlaying gs1 \<and> \<not> isGameOver gs1 then
           (let r = updateEnemy fr gs1 (ghostState w)
            in (\<lparr>gameState = (onGameOver ^^ snd r) gs1, flashlightSystem = f1,
                 ghostState = fst r\<rparr>, snd r))
         else (\<lparr>gameState = gs1, flashlightSystem = f1, ghostState = ghostState w\<rparr>, 0))"

text \<open>
  Everything that can happen to a session: a rendered frame, a key press, the mouse
  button going down or up, a click on the overlay, a change of the pointer lock (the
  argument says whether the pointer is now locked), and the ghost model finishing to
  load.
\<close>

datatype event =
    Animate frame
  | KeyDown key
  | MouseDown
  | MouseUp
  | OverlayClick
  | PointerLockChange bool
  | GhostModelLoaded

definition step :: "world \<Rightarrow> event \<Rightarrow> world" where
  "step w e =
     (case e of
        Animate fr \<Rightarrow> fst (animate fr w)
      | KeyDown k \<Rightarrow> keydown k w
      | MouseDown \<Rightarrow>
          (if isPlaying (gameState w)
           then w\<lparr>flashlightSystem := pressButton (flashlightSystem w)\<rparr> else w)
      | MouseUp \<Rightarrow>
          (if isPlaying (gameState w)
           then w\<lparr>flashlightSystem := releaseButton (flashlightSystem w)\<rparr> else w)
      | OverlayClick \<Rightarrow> (if isGameOver (gameState w) then restartGame w else w)
      | PointerLockChange b \<Rightarrow> w\<lparr>gameState := (gameState w)\<lparr>isPlaying := b\<rparr>\<rparr>
      | GhostModelLoaded \<Rightarrow> w\<lparr>ghostState := ghostModelLoaded (ghostState w)\<rparr>)"

text \<open>How often an event invokes the game-over callback.\<close>

definition gameOverCalls :: "world \<Rightarrow> event \<Rightarrow> nat" where
  "gameOverCalls w e = (case e of Animate fr \<Rightarrow> snd (animate fr w) | _ \<Rightarrow> 0)"

definition run :: "world \<Rightarrow> event list \<Rightarrow> world" where
  "run w es = foldl step w es"

fun totalGameOverCalls :: "world \<Rightarrow> event list \<Rightarrow> nat" where
  "totalGameOverCalls w [] = 0"
| "totalGameOverCalls w (e # es) = gameOverCalls w e + totalGameOverCalls (step w e) es"

text \<open>The clock never runs backwards: a frame's delta is not negative.\<close>

fun nonnegEvent :: "event \<Rightarrow> bool" where
  "nonnegEvent (Animate fr) = (0 \<le> delta fr)"
| "nonnegEvent _ = True"


text \<open>
  A restart happens when the overlay is clicked while the game is over; the same click
  while the game is not over (the start menu, or a pause) only asks for the pointer lock
  and changes nothing. \<open>noRestart w es\<close> says that the events \<open>es\<close>, run from \<open>w\<close>,
  contain no restart.
\<close>

fun noRestart :: "world \<Rightarrow> event list \<Rightarrow> bool" where
  "noRestart w [] = True"
| "noRestart w (e # es) =
     (\<not> (e = OverlayClick \<and> isGameOver (gameState w)) \<and> noRestart (step w e) es)"

text \<open>Several frames of the ghost alone, each with the game state it is given.\<close>

fun enemyFrames :: "ghost \<Rightarrow> (frame \<times> game) list \<Rightarrow> ghost" where
  "enemyFrames g [] = g"
| "enemyFrames g (fg # rest) = enemyFrames (fst (updateEnemy (fst fg) (snd fg) g)) rest"


section \<open>Predicates used in the proofs\<close>

definition batteryOk :: "flashlight \<Rightarrow> bool" where
  "batteryOk f = (0 \<le> battery f \<and> battery f \<le> maxBattery)"

definition depletedOff :: "flashlight \<Rightarrow> bool" where
  "depletedOff f = (if isDepleted f then \<not> isOn f else True)"

text \<open>A flashlight that only its own methods have touched: while it is not depleted its
  recharge timer rests at 0.\<close>

definition timerIdle :: "flashlight \<Rightarrow> bool" where
  "timerIdle f = (if isDepleted f then battery f = 0 \<and> \<not> isOn f else rechargeTimer f = 0)"

text \<open>A stalking ghost whose exposure is below the banishment threshold, before or
  after its stalk time has run out.\<close>

definition undecided :: "ghost \<Rightarrow> bool" where
  "undecided g =
     (loaded g \<and> exposureTimer g < 2 \<and>
      (phase g = Stalk \<and> stalkTimer g < 4 \<or> phase g = Attack \<and> 4 \<le> stalkTimer g))"


section \<open>Concrete sessions\<close>

text \<open>
  The camera stays where \<^verbatim>\<open>init\<close> puts it, at (0, 5, 5). A plain frame looks straight
  ahead; an aimed frame looks at the spot just outside the left door where a teleported
  ghost stands, and draws 0.5 twice, so the ghost's shake is zero.
\<close>

definition cameraHome :: vec3 where "cameraHome = vec 0 5 5"

definition ghostAtLeftDoor :: vec3 where "ghostAtLeftDoor = vec (- 18) 4 (- 2)"

definition plainFrame :: "real \<Rightarrow> real \<Rightarrow> real \<Rightarrow> frame" where
  "plainFrame d r1 r2 =
     \<lparr>delta = d, camPos = cameraHome, camDir = vec 0 0 (- 1), dateNow = 1730000000000,
      random1 = r1, random2 = r2\<rparr>"

definition aimedFrame :: "real \<Rightarrow> frame" where
  "aimedFrame d =
     \<lparr>delta = d, camPos = cameraHome,
      camDir = normalize (subVectors ghostAtLeftDoor cameraHome),
      dateNow = 1730000000000, random1 = 0.5, random2 = 0.5\<rparr>"

text \<open>The ghost teleports to the left door after 1.6 s in the dark.\<close>

definition teleportTrace :: "event list" where
  "teleportTrace =
     [GhostModelLoaded, PointerLockChange True, Animate (plainFrame 1.6 0.25 0.25)]"

text \<open>Then the player switches the light on and holds it on the ghost, for one second
  and for a second one.\<close>

definition irradiatedTrace :: "event list" where
  "irradiatedTrace = teleportTrace @ [MouseDown, MouseUp, Animate (aimedFrame 1)]"

definition banishTrace :: "event list" where
  "banishTrace = irradiatedTrace @ [Animate (aimedFrame 1)]"

text \<open>Instead of the second one, the player switches the light off; three seconds
  later the stalk time is over.\<close>

definition timeoutTrace :: "event list" where
  "timeoutTrace = irradiatedTrace @ [MouseDown, MouseUp]"

text \<open>The same three seconds as frames of the ghost alone.\<close>

definition darkFrames :: "(frame \<times> game) list" where
  "darkFrames = replicate 3 (plainFrame 1 0.5 0.5, initGame\<lparr>isPlaying := True\<rparr>)"

text \<open>Or the player shuts the left door on the stalking ghost; or the ghost has come to
  the right door, and the player shuts that one.\<close>

definition breachTrace :: "event list" where
  "breachTrace = teleportTrace @ [KeyDown KeyQ]"

definition breachRightTrace :: "event list" where
  "breachRightTrace =
     [GhostModelLoaded, PointerLockChange True, Animate (plainFrame 1.6 0.25 0.75),
      KeyDown KeyE]"

text \<open>What the player may do after a breach: pause the game (the pointer lock is lost),
  click on the overlay to resume, and try the keys.\<close>

definition afterBreach :: "event list" where
  "afterBreach =
     [PointerLockChange False, OverlayClick, PointerLockChange True,
      KeyDown KeyQ, KeyDown KeyE, Animate (plainFrame 1 0.75 0.5), KeyDown KeyQ]"

text \<open>
  A session in which the light is left on until the battery is empty (five steps of
  three seconds); in the frame of the depletion the ghost teleports to the left door.
\<close>

definition depletionTrace :: "event list" where
  "depletionTrace =
     [GhostModelLoaded, PointerLockChange True, MouseDown, MouseUp,
      Animate (plainFrame 3 0.5 0.5), Animate (plainFrame 3 0.5 0.5),
      Animate (plainFrame 3 0.5 0.5), Animate (plainFrame 3 0.5 0.5),
      Animate (plainFrame 3 0.25 0.25)]"

text \<open>The ghost stalks for four seconds, attacks and reaches the player 4.125 s after
  the depletion.\<close>

definition gameOverTrace :: "event list" where
  "gameOverTrace =
     depletionTrace @ [Animate (plainFrame 4 0.5 0.5), Animate (plainFrame 0.125 0.5 0.5)]"

text \<open>Another session: the ghost teleports, stalks for four seconds in the dark and
  attacks; the player switches the light on, and in the next frame the ghost is there.\<close>

definition gameOverLitTrace :: "event list" where
  "gameOverLitTrace =
     teleportTrace @
     [Animate (plainFrame 4 0.5 0.5), MouseDown, MouseUp, Animate (plainFrame 0.125 0.5 0.5)]"

text \<open>What may follow the end of the game short of a restart: further frames, the
  pointer lock coming back, key presses and mouse clicks.\<close>

definition afterGameOver :: "event list" where
  "afterGameOver =
     [Animate (plainFrame 0.125 0.5 0.5), PointerLockChange True,
      Animate (plainFrame 0.125 0.5 0.5), KeyDown KeyQ, MouseDown, MouseUp,
      Animate (plainFrame 0.125 0.5 0.5)]"

text \<open>The player restarts at once and empties the battery again in the same way.\<close>

definition secondSession :: "event list" where
  "secondSession =
     [OverlayClick, PointerLockChange True, MouseDown, MouseUp,
      Animate (plainFrame 3 0.5 0.5), Animate (plainFrame 3 0.5 0.5),
      Animate (plainFrame 3 0.5 0.5), Animate (plainFrame 3 0.5 0.5),
      Animate (plainFrame 3 0.75 0.75)]"

text \<open>The first session again, but the player switches the light off when one unit is
  left.\<close>

definition oneUnitTrace :: "event list" where
  "oneUnitTrace = butlast depletionTrace @ [MouseDown, MouseUp]"

section \<open>Evaluating the model\<close>

lemmas flashlight_defs =
  update_def toggle_def releaseButton_def pressButton_def consumeBatteryStep_def
  triggerDepletion_def turnOffVisuals_def
  maxBattery_def drainRate_def rechargeDelay_def passiveRechargeSpeed_def buttonBaseX_def
  newFlashlight_def

lemmas model_defs =
  run_def step_def animate_def keydown_def triggerDoorBreak_def restartGame_def
  onGameOver_def isGhostBlockingDoor_def onGhostHitByDoor_def
  updateEnemy_def handleWanderPhase_def handleStalkPhase_def handleApproachPhase_def
  handleAttackPhase_def handleRetreatPhase_def teleportToDoor_def triggerNormalAttack_def
  availableDoors_def chosenSide_def resetEnemy_def ghostModelLoaded_def
  moveX_def moveY_def moveZ_def lerp_def distanceTo_def vlength_def subVectors_def vec_def
  flashlight_defs initWorld_def initGame_def initGhost_def
  plainFrame_def cameraHome_def ghostAtLeftDoor_def Let_def


section \<open>The flashlight\<close>

subsection \<open>Battery bounds\<close>

lemma batteryOk_consumeBatteryStep: "batteryOk f \<Longrightarrow> batteryOk (consumeBatteryStep f)"
  by (simp add: batteryOk_def consumeBatteryStep_def triggerDepletion_def turnOffVisuals_def
      maxBattery_def Let_def)

lemma batteryOk_toggle: "batteryOk f \<Longrightarrow> batteryOk (toggle f)"
  using batteryOk_consumeBatteryStep [of "f\<lparr>isOn := True\<rparr>"]
  by (auto simp add: toggle_def Let_def turnOffVisuals_def batteryOk_def)

lemma batteryOk_releaseButton: "batteryOk f \<Longrightarrow> batteryOk (releaseButton f)"
  using batteryOk_toggle [of "f\<lparr>buttonX := buttonBaseX\<rparr>"]
  by (simp add: releaseButton_def Let_def batteryOk_def)

lemma batteryOk_pressButton: "batteryOk f \<Longrightarrow> batteryOk (pressButton f)"
  by (simp add: pressButton_def batteryOk_def)

lemma batteryOk_update:
  assumes "batteryOk f" and "0 \<le> dt"
  shows "batteryOk (update dt f)"
proof -
  have c: "batteryOk (consumeBatteryStep (f\<lparr>usageTimer := usageTimer f + dt\<rparr>))"
    using assms(1) by (intro batteryOk_consumeBatteryStep) (simp add: batteryOk_def)
  show ?thesis
    using assms c
    by (auto simp add: update_def Let_def batteryOk_def turnOffVisuals_def maxBattery_def
        passiveRechargeSpeed_def rechargeDelay_def)
qed

lemma batteryOk_flStep: "batteryOk f \<Longrightarrow> nonnegOp a \<Longrightarrow> batteryOk (flStep f a)"
  by (cases a)
    (simp_all add: batteryOk_pressButton batteryOk_releaseButton batteryOk_toggle
      batteryOk_update)

lemma batteryOk_flRun:
  "batteryOk f \<Longrightarrow> list_all nonnegOp ops \<Longrightarrow> batteryOk (flRun f ops)"
  unfolding flRun_def
  by (induction ops arbitrary: f) (simp_all add: batteryOk_flStep)

text \<open>
  Claim C6. Start from any flashlight whose battery lies in [0, 6] (the constructed one
  does) and apply any sequence of \<^verbatim>\<open>pressButton\<close>, \<^verbatim>\<open>releaseButton\<close>, \<^verbatim>\<open>toggle\<close> and
  \<^verbatim>\<open>update(dt)\<close> calls with \<open>dt \<ge> 0\<close>: after every prefix of the sequence the battery
  still lies in [0, 6].
\<close>

theorem battery_bounds:
  assumes "0 \<le> battery f" and "battery f \<le> 6" and "list_all nonnegOp ops"
  shows "0 \<le> battery (flRun f (take n ops)) \<and> battery (flRun f (take n ops)) \<le> 6"
proof -
  have "list_all nonnegOp (take n ops)"
    using assms(3) by (auto simp add: list_all_iff dest: in_set_takeD)
  moreover have "batteryOk f"
    using assms(1,2) by (simp add: batteryOk_def maxBattery_def)
  ultimately have "batteryOk (flRun f (take n ops))"
    by (rule batteryOk_flRun [rotated])
  then show ?thesis by (simp add: batteryOk_def maxBattery_def)
qed

text \<open>Switched on, drained twice, switched off and left to recharge for ten seconds:
  the battery is clamped at 6.\<close>

theorem battery_bounds_witness:
  "0 \<le> battery newFlashlight \<and> battery newFlashlight \<le> 6 \<and>
   list_all nonnegOp [ReleaseButton, Update 3, Update 3, Toggle, Update 10] \<and>
   0 \<le> battery (flRun newFlashlight (take 5 [ReleaseButton, Update 3, Update 3, Toggle, Update 10])) \<and>
   battery (flRun newFlashlight (take 5 [ReleaseButton, Update 3, Update 3, Toggle, Update 10])) \<le> 6 \<and>
   battery (flRun newFlashlight [ReleaseButton, Update 3, Update 3]) = 3 \<and>
   battery (flRun newFlashlight [ReleaseButton, Update 3, Update 3, Toggle, Update 10]) = 6"
proof -
  have h: "0 \<le> battery newFlashlight" "battery newFlashlight \<le> 6"
    "list_all nonnegOp [ReleaseButton, Update 3, Update 3, Toggle, Update 10]"
    by (simp_all add: newFlashlight_def maxBattery_def)
  have v: "battery (flRun newFlashlight [ReleaseButton, Update 3, Update 3]) = 3"
    "battery (flRun newFlashlight [ReleaseButton, Update 3, Update 3, Toggle, Update 10]) = 6"
    by (simp_all add: flRun_def flashlight_defs Let_def)
  from battery_bounds [OF h, of 5] h v show ?thesis by simp
qed

subsection \<open>The depletion gate\<close>

lemma toggle_rejected: "\<not> isOn f \<Longrightarrow> battery f < 1 \<Longrightarrow> toggle f = f"
  by (simp add: toggle_def)

lemma releaseButton_depleted:
  "isDepleted f \<Longrightarrow> releaseButton f = f\<lparr>buttonX := buttonBaseX\<rparr>"
  by (simp add: releaseButton_def Let_def)

lemma depletedOff_releaseButton: "depletedOff f \<Longrightarrow> depletedOff (releaseButton f)"
  by (simp add: depletedOff_def flashlight_defs Let_def)

lemma depletedOff_update: "depletedOff (update dt f)"
  by (simp add: depletedOff_def flashlight_defs Let_def)

lemma depletedOff_pressButton: "depletedOff f \<Longrightarrow> depletedOff (pressButton f)"
  by (simp add: depletedOff_def flashlight_defs)

lemma depletedOff_restartGame: "depletedOff (flashlightSystem (restartGame w))"
  by (simp add: depletedOff_def restartGame_def flashlight_defs Let_def)

lemma depletedOff_step:
  "depletedOff (flashlightSystem w) \<Longrightarrow> depletedOff (flashlightSystem (step w e))"
  by (cases e)
    (simp_all add: step_def animate_def keydown_def triggerDoorBreak_def Let_def
      depletedOff_update depletedOff_releaseButton depletedOff_pressButton
      depletedOff_restartGame split: key.split)

lemma depletedOff_run:
  "depletedOff (flashlightSystem w) \<Longrightarrow> depletedOff (flashlightSystem (run w es))"
  unfolding run_def by (induction es arbitrary: w) (simp_all add: depletedOff_step)

lemma depletedOff_init: "depletedOff (flashlightSystem initWorld)"
  by (simp add: depletedOff_def initWorld_def newFlashlight_def)

lemma mouseUp_depleted:
  assumes "isDepleted (flashlightSystem w)" and "\<not> isOn (flashlightSystem w)"
  shows "\<not> isOn (flashlightSystem (step w MouseUp)) \<and>
         isDepleted (flashlightSystem (step w MouseUp))"
  using assms by (simp add: step_def releaseButton_depleted)

text \<open>
  Claim C8. A flashlight that is off with less than one unit of battery is left exactly
  as it was by \<^verbatim>\<open>toggle\<close>. While the flashlight is depleted, \<^verbatim>\<open>releaseButton\<close> only
  moves the button back and does not call \<^verbatim>\<open>toggle\<close>. So in every state a session can
  reach, a depleted flashlight is off, and releasing the mouse button leaves it off and
  depleted.
\<close>

theorem depletion_gate:
  "(\<not> isOn f \<and> battery f < 1 \<longrightarrow> toggle f = f) \<and>
   (isDepleted f \<longrightarrow> releaseButton f = f\<lparr>buttonX := buttonBaseX\<rparr>) \<and>
   (isDepleted (flashlightSystem (run initWorld es)) \<longrightarrow>
      \<not> isOn (flashlightSystem (run initWorld es)) \<and>
      \<not> isOn (flashlightSystem (step (run initWorld es) MouseUp)) \<and>
      isDepleted (flashlightSystem (step (run initWorld es) MouseUp)))"
proof (intro conjI impI)
  assume "\<not> isOn f \<and> battery f < 1"
  then show "toggle f = f" by (simp add: toggle_rejected)
next
  assume "isDepleted f"
  then show "releaseButton f = f\<lparr>buttonX := buttonBaseX\<rparr>" by (rule releaseButton_depleted)
next
  assume d: "isDepleted (flashlightSystem (run initWorld es))"
  have "depletedOff (flashlightSystem (run initWorld es))"
    by (rule depletedOff_run [OF depletedOff_init])
  with d show off: "\<not> isOn (flashlightSystem (run initWorld es))"
    by (simp add: depletedOff_def)
  from mouseUp_depleted [OF d off]
  show "\<not> isOn (flashlightSystem (step (run initWorld es) MouseUp))"
    and "isDepleted (flashlightSystem (step (run initWorld es) MouseUp))"
    by simp_all
qed


text \<open>The worlds the concrete sessions lead to.\<close>

lemma depletion_world:
  "run initWorld depletionTrace =
     \<lparr>gameState = \<lparr>isPlaying = True, leftOpen = True, rightOpen = True, leftBroken = False,
        rightBroken = False, isGameOver = False, flashlightOn = False\<rparr>,
      flashlightSystem = \<lparr>isOn = False, isDepleted = True, battery = 0, usageTimer = 0,
        rechargeTimer = 0, buttonX = - 0.055, intensity = 0\<rparr>,
      ghostState = \<lparr>loaded = True, position = \<lparr>vx = - 18, vy = 4, vz = - 2\<rparr>,
        phase = Stalk, attackSide = SideLeft, wanderTimer = 15 / 2, rngCheckTimer = 0,
        stalkTimer = 0, exposureTimer = 0\<rparr>\<rparr>"
  by (simp add: depletionTrace_def model_defs isIrradiated_def)

lemma run_append: "run w (es @ es') = run (run w es) es'"
  by (simp add: run_def)

lemma gameOver_world:
  "run initWorld gameOverTrace =
     \<lparr>gameState = \<lparr>isPlaying = False, leftOpen = True, rightOpen = True, leftBroken = False,
        rightBroken = False, isGameOver = True, flashlightOn = False\<rparr>,
      flashlightSystem = \<lparr>isOn = False, isDepleted = True, battery = 0, usageTimer = 0,
        rechargeTimer = 33 / 8, buttonX = - 0.055, intensity = 0\<rparr>,
      ghostState = \<lparr>loaded = True, position = \<lparr>vx = 0, vy = 5, vz = 5\<rparr>, phase = Attack,
        attackSide = SideLeft, wanderTimer = 15 / 2, rngCheckTimer = 0, stalkTimer = 4,
        exposureTimer = 0\<rparr>\<rparr>"
  unfolding gameOverTrace_def run_append depletion_world
  by (simp add: model_defs isIrradiated_def)

lemma second_depletion_flashlight:
  "flashlightSystem (run initWorld (gameOverTrace @ secondSession)) =
     \<lparr>isOn = False, isDepleted = True, battery = 0, usageTimer = 0,
      rechargeTimer = 33 / 8, buttonX = - 0.055, intensity = 0\<rparr>"
  unfolding run_append gameOver_world
  by (simp add: secondSession_def model_defs isIrradiated_def)

lemma second_depletion_before:
  "flashlightSystem (run initWorld (gameOverTrace @ butlast secondSession)) =
     \<lparr>isOn = True, isDepleted = False, battery = 1, usageTimer = 0,
      rechargeTimer = 33 / 8, buttonX = - 0.055, intensity = 150\<rparr>"
  unfolding run_append gameOver_world
  by (simp add: secondSession_def model_defs isIrradiated_def)

text \<open>With the battery just run down, a release of the mouse button changes nothing but
  the button.\<close>

theorem depletion_gate_witness:
  "\<not> isOn (flashlightSystem (run initWorld depletionTrace)) \<and>
   battery (flashlightSystem (run initWorld depletionTrace)) < 1 \<and>
   isDepleted (flashlightSystem (run initWorld depletionTrace)) \<and>
   isPlaying (gameState (run initWorld depletionTrace)) \<and>
   toggle (flashlightSystem (run initWorld depletionTrace)) =
     flashlightSystem (run initWorld depletionTrace) \<and>
   releaseButton (flashlightSystem (run initWorld depletionTrace)) =
     (flashlightSystem (run initWorld depletionTrace))\<lparr>buttonX := buttonBaseX\<rparr> \<and>
   \<not> isOn (flashlightSystem (step (run initWorld depletionTrace) MouseUp)) \<and>
   isDepleted (flashlightSystem (step (run initWorld depletionTrace) MouseUp))"
proof -
  have h: "\<not> isOn (flashlightSystem (run initWorld depletionTrace))"
    "battery (flashlightSystem (run initWorld depletionTrace)) < 1"
    "isDepleted (flashlightSystem (run initWorld depletionTrace))"
    "isPlaying (gameState (run initWorld depletionTrace))"
    by (simp_all add: depletion_world)
  from depletion_gate [of "flashlightSystem (run initWorld depletionTrace)" depletionTrace] h
  show ?thesis by blast
qed

subsection \<open>Switching on with exactly one unit\<close>

text \<open>
  Claim C10. When the flashlight is off and not depleted and its battery \<open>b\<close> satisfies
  \<open>1 \<le> b\<close> and \<open>b - 1 \<le> 0\<close> (that is, \<open>b = 1\<close>), the call \<^verbatim>\<open>toggle()\<close> ends with the
  flashlight off, depleted, and the battery at 0: the battery step that follows the
  flip empties the battery and triggers the depletion.
\<close>

theorem toggle_at_one_unit:
  assumes "\<not> isOn f" and "\<not> isDepleted f" and "1 \<le> battery f" and "battery f - 1 \<le> 0"
  shows "isOn (toggle f) = False \<and> isDepleted (toggle f) = True \<and> battery (toggle f) = 0"
  using assms
  by (simp add: toggle_def consumeBatteryStep_def triggerDepletion_def turnOffVisuals_def
      Let_def)

lemma one_unit_flashlight:
  "flashlightSystem (run initWorld oneUnitTrace) =
     \<lparr>isOn = False, isDepleted = False, battery = 1, usageTimer = 0,
      rechargeTimer = 0, buttonX = - 0.055, intensity = 0\<rparr>"
  by (simp add: oneUnitTrace_def depletionTrace_def model_defs isIrradiated_def)

text \<open>The light was switched off with exactly one unit left; switching it on again
  depletes it.\<close>

theorem toggle_at_one_unit_witness:
  "\<not> isOn (flashlightSystem (run initWorld oneUnitTrace)) \<and>
   \<not> isDepleted (flashlightSystem (run initWorld oneUnitTrace)) \<and>
   1 \<le> battery (flashlightSystem (run initWorld oneUnitTrace)) \<and>
   battery (flashlightSystem (run initWorld oneUnitTrace)) - 1 \<le> 0 \<and>
   isOn (toggle (flashlightSystem (run initWorld oneUnitTrace))) = False \<and>
   isDepleted (toggle (flashlightSystem (run initWorld oneUnitTrace))) = True \<and>
   battery (toggle (flashlightSystem (run initWorld oneUnitTrace))) = 0"
proof -
  have h: "\<not> isOn (flashlightSystem (run initWorld oneUnitTrace))"
    "\<not> isDepleted (flashlightSystem (run initWorld oneUnitTrace))"
    "1 \<le> battery (flashlightSystem (run initWorld oneUnitTrace))"
    "battery (flashlightSystem (run initWorld oneUnitTrace)) - 1 \<le> 0"
    by (simp_all add: one_unit_flashlight)
  from toggle_at_one_unit [OF h] h show ?thesis by simp
qed

text \<open>The call leaves the spot light at intensity 150; the next \<^verbatim>\<open>update\<close>, which
  every frame runs before it renders, switches it off.\<close>

lemma one_unit_leaves_light:
  assumes "\<not> isOn f" and "1 \<le> battery f" and "battery f - 1 \<le> 0"
  shows "intensity (toggle f) = 150 \<and> intensity (update dt (toggle f)) = 0"
  using assms by (simp add: flashlight_defs Let_def)


subsection \<open>The recharge delay\<close>

lemma update_depleted:
  assumes "isDepleted f"
  shows "update dt f =
    (if 5 \<le> rechargeTimer f + dt
     then f\<lparr>isOn := False, intensity := 0, battery := 1.1, isDepleted := False,
            rechargeTimer := 0\<rparr>
     else f\<lparr>isOn := False, intensity := 0, rechargeTimer := rechargeTimer f + dt\<rparr>)"
  using assms by (simp add: flashlight_defs Let_def)

text \<open>
  As long as only the methods of the class run, the recharge timer is 0 whenever the
  flashlight is not depleted, so every depletion starts the timer from 0. The direct
  field writes of \<^verbatim>\<open>restartGame\<close> are not among these methods.
\<close>

lemma timerIdle_flStep: "timerIdle f \<Longrightarrow> timerIdle (flStep f a)"
  by (cases a) (auto simp add: timerIdle_def flashlight_defs Let_def split: if_splits)

lemma timerIdle_flRun: "timerIdle f \<Longrightarrow> timerIdle (flRun f ops)"
  unfolding flRun_def by (induction ops arbitrary: f) (simp_all add: timerIdle_flStep)

lemma class_depletion_starts_at_zero:
  assumes "\<not> isDepleted (flRun newFlashlight ops)"
  shows "rechargeTimer (flStep (flRun newFlashlight ops) a) = 0"
proof -
  have "timerIdle newFlashlight" by (simp add: timerIdle_def newFlashlight_def)
  then have "timerIdle (flRun newFlashlight ops)" by (rule timerIdle_flRun)
  with assms have "rechargeTimer (flRun newFlashlight ops) = 0"
    by (simp add: timerIdle_def)
  with assms show ?thesis
    by (cases a) (auto simp add: flashlight_defs Let_def)
qed

lemma update_depleted_result:
  assumes "isDepleted f"
  shows "isDepleted (update dt f) = (rechargeTimer f + dt < 5) \<and>
         battery (update dt f) = (if rechargeTimer f + dt < 5 then battery f else 1.1) \<and>
         rechargeTimer (update dt f) =
           (if rechargeTimer f + dt < 5 then rechargeTimer f + dt else 0)"
  using assms by (auto simp add: update_depleted)

text \<open>Updates of a depleted flashlight, one after the other.\<close>

lemma updates_waiting:
  assumes "isDepleted f" and "\<forall>dt \<in> set dts. 0 \<le> dt"
    and "rechargeTimer f + sum_list dts < 5"
  shows "isDepleted (flRun f (map Update dts)) \<and>
         battery (flRun f (map Update dts)) = battery f \<and>
         rechargeTimer (flRun f (map Update dts)) = rechargeTimer f + sum_list dts"
  using assms unfolding flRun_def
proof (induction dts arbitrary: f)
  case Nil
  then show ?case by simp
next
  case (Cons dt dts)
  from Cons.prems have nn: "0 \<le> sum_list dts" by (intro sum_list_nonneg) auto
  with Cons.prems have lt: "rechargeTimer f + dt < 5" by simp
  let ?f = "update dt f"
  from Cons.prems(1) lt have u: "isDepleted ?f" "battery ?f = battery f"
    "rechargeTimer ?f = rechargeTimer f + dt"
    by (simp_all add: update_depleted)
  from Cons.prems have "rechargeTimer ?f + sum_list dts < 5" "\<forall>dt \<in> set dts. 0 \<le> dt"
    by (simp_all add: u)
  from Cons.IH [OF u(1) this(2) this(1)] u show ?case by simp
qed

text \<open>
  So \<^verbatim>\<open>update\<close> itself keeps the delay the claim describes, counted on
  \<^verbatim>\<open>rechargeTimer\<close>: a flashlight depleted with the timer at 0 stays depleted, its
  battery untouched, through all updates that sum to less than five seconds, and the
  update that brings the sum to five seconds sets the battery to 1.1, clears the
  depletion and resets the timer.
\<close>

lemma recharge_delay_from_zero:
  assumes "isDepleted f" and "rechargeTimer f = 0" and "\<forall>dt \<in> set dts. 0 \<le> dt"
    and "sum_list dts < 5" and "5 \<le> sum_list dts + dt"
  shows "isDepleted (flRun f (map Update dts)) \<and>
         battery (flRun f (map Update dts)) = battery f \<and>
         \<not> isDepleted (update dt (flRun f (map Update dts))) \<and>
         battery (update dt (flRun f (map Update dts))) = 1.1 \<and>
         rechargeTimer (update dt (flRun f (map Update dts))) = 0"
proof -
  from updates_waiting [of f dts] assms
  have w: "isDepleted (flRun f (map Update dts))"
    "battery (flRun f (map Update dts)) = battery f"
    "rechargeTimer (flRun f (map Update dts)) = sum_list dts"
    by simp_all
  from update_depleted_result [OF w(1), of dt] w assms(5) show ?thesis
    by simp
qed

text \<open>
  Claim C9 holds for every depletion that starts with \<^verbatim>\<open>rechargeTimer\<close> at 0, and fails
  in the session below. \<^verbatim>\<open>restartGame\<close> clears \<^verbatim>\<open>isDepleted\<close> without resetting
  \<^verbatim>\<open>rechargeTimer\<close>: the battery runs down, the ghost ends the game 4.125 s later, the
  player restarts and runs the battery down again. The flashlight was not depleted
  before the last frame of this session and is depleted after it, with the timer
  already at 4.125; one update of a single second ends the depletion and sets the
  battery to 1.1.
\<close>

theorem recharge_ends_early_after_restart:
  "list_all nonnegEvent (gameOverTrace @ secondSession) \<and>
   isDepleted (flashlightSystem (run initWorld (gameOverTrace @ butlast secondSession))) = False \<and>
   isDepleted (flashlightSystem (run initWorld (gameOverTrace @ secondSession))) = True \<and>
   rechargeTimer (flashlightSystem (run initWorld (gameOverTrace @ secondSession))) = 33 / 8 \<and>
   isDepleted (update 1 (flashlightSystem (run initWorld (gameOverTrace @ secondSession)))) = False \<and>
   battery (update 1 (flashlightSystem (run initWorld (gameOverTrace @ secondSession)))) = 1.1"
proof -
  have n: "list_all nonnegEvent (gameOverTrace @ secondSession)"
    by (simp add: gameOverTrace_def depletionTrace_def secondSession_def plainFrame_def)
  have h: "isDepleted (flashlightSystem (run initWorld (gameOverTrace @ secondSession)))"
    by (simp add: second_depletion_flashlight)
  from update_depleted_result [OF h, of 1] n show ?thesis
    by (simp add: second_depletion_flashlight second_depletion_before)
qed

subsection \<open>Restart\<close>

lemma restartGame_result:
  "leftOpen (gameState (restartGame w)) = True \<and>
   rightOpen (gameState (restartGame w)) = True \<and>
   leftBroken (gameState (restartGame w)) = False \<and>
   rightBroken (gameState (restartGame w)) = False \<and>
   battery (flashlightSystem (restartGame w)) = 6 \<and>
   isOn (flashlightSystem (restartGame w)) = False \<and>
   isDepleted (flashlightSystem (restartGame w)) = False \<and>
   phase (ghostState (restartGame w)) = Wander \<and>
   usageTimer (flashlightSystem (restartGame w)) = usageTimer (flashlightSystem w) \<and>
   rechargeTimer (flashlightSystem (restartGame w)) = rechargeTimer (flashlightSystem w)"
  by (simp add: restartGame_def resetEnemy_def toggle_def turnOffVisuals_def Let_def)

lemma gameOverLit_world:
  "run initWorld gameOverLitTrace =
     \<lparr>gameState = \<lparr>isPlaying = False, leftOpen = True, rightOpen = True, leftBroken = False,
        rightBroken = False, isGameOver = True, flashlightOn = True\<rparr>,
      flashlightSystem = \<lparr>isOn = True, isDepleted = False, battery = 5, usageTimer = 1 / 8,
        rechargeTimer = 0, buttonX = - 0.055, intensity = 150\<rparr>,
      ghostState = \<lparr>loaded = True, position = \<lparr>vx = 0, vy = 5, vz = 5\<rparr>, phase = Attack,
        attackSide = SideLeft, wanderTimer = 4 / 5, rngCheckTimer = 0, stalkTimer = 4,
        exposureTimer = 0\<rparr>\<rparr>"
  by (simp add: gameOverLitTrace_def teleportTrace_def model_defs isIrradiated_def)

text \<open>
  Claim C2. \<^verbatim>\<open>restartGame\<close> opens and repairs both doors, fills the battery to 6,
  clears the depletion, leaves the flashlight off and puts the ghost into Wander, but
  it does not touch \<^verbatim>\<open>usageTimer\<close> and \<^verbatim>\<open>rechargeTimer\<close>, which are 0 in a newly
  constructed flashlight. In the first session below the game ends 4.125 s into the
  recharge delay, and after the restart the recharge timer still stands at 4.125. In the
  second one the game ends with the light on for 0.125 s, and after the restart the
  usage timer still stands at 0.125.
\<close>

theorem restart_keeps_flashlight_timers:
  "isGameOver (gameState (run initWorld gameOverTrace)) = True \<and>
   battery (flashlightSystem (step (run initWorld gameOverTrace) OverlayClick)) = 6 \<and>
   isOn (flashlightSystem (step (run initWorld gameOverTrace) OverlayClick)) = False \<and>
   isDepleted (flashlightSystem (step (run initWorld gameOverTrace) OverlayClick)) = False \<and>
   phase (ghostState (step (run initWorld gameOverTrace) OverlayClick)) = Wander \<and>
   rechargeTimer (flashlightSystem (step (run initWorld gameOverTrace) OverlayClick)) = 33 / 8 \<and>
   isGameOver (gameState (run initWorld gameOverLitTrace)) = True \<and>
   isOn (flashlightSystem (step (run initWorld gameOverLitTrace) OverlayClick)) = False \<and>
   usageTimer (flashlightSystem (step (run initWorld gameOverLitTrace) OverlayClick)) = 1 / 8 \<and>
   usageTimer newFlashlight = 0 \<and> rechargeTimer newFlashlight = 0"
proof -
  have s: "step (run initWorld gameOverTrace) OverlayClick =
           restartGame (run initWorld gameOverTrace)"
    "step (run initWorld gameOverLitTrace) OverlayClick =
           restartGame (run initWorld gameOverLitTrace)"
    by (simp_all add: step_def gameOver_world gameOverLit_world)
  from restartGame_result [of "run initWorld gameOverTrace"]
    restartGame_result [of "run initWorld gameOverLitTrace"]
  show ?thesis
    unfolding s by (simp add: gameOver_world gameOverLit_world newFlashlight_def)
qed

section \<open>The doors\<close>

lemma onGameOver_funpow_doors:
  "leftOpen ((onGameOver ^^ n) gs) = leftOpen gs"
  "rightOpen ((onGameOver ^^ n) gs) = rightOpen gs"
  "leftBroken ((onGameOver ^^ n) gs) = leftBroken gs"
  "rightBroken ((onGameOver ^^ n) gs) = rightBroken gs"
  by (induction n) (simp_all add: onGameOver_def)

lemma animate_doors:
  "leftOpen (gameState (fst (animate fr w))) = leftOpen (gameState w)"
  "rightOpen (gameState (fst (animate fr w))) = rightOpen (gameState w)"
  "leftBroken (gameState (fst (animate fr w))) = leftBroken (gameState w)"
  "rightBroken (gameState (fst (animate fr w))) = rightBroken (gameState w)"
  by (simp_all add: animate_def Let_def onGameOver_funpow_doors)

subsection \<open>Mutual exclusion\<close>

lemma keydown_doors:
  "leftOpen (gameState w) \<or> rightOpen (gameState w) \<Longrightarrow>
   leftOpen (gameState (keydown k w)) \<or> rightOpen (gameState (keydown k w))"
  by (cases k) (auto simp add: keydown_def triggerDoorBreak_def Let_def)

lemma step_doors:
  assumes "leftOpen (gameState w) \<or> rightOpen (gameState w)"
  shows "leftOpen (gameState (step w e)) \<or> rightOpen (gameState (step w e))"
proof (cases e)
  case (KeyDown k)
  then show ?thesis using assms keydown_doors [of w k] by (simp add: step_def)
qed (use assms in \<open>auto simp add: step_def animate_doors restartGame_def Let_def\<close>)

lemma run_doors:
  "leftOpen (gameState w) \<or> rightOpen (gameState w) \<Longrightarrow>
   leftOpen (gameState (run w es)) \<or> rightOpen (gameState (run w es))"
  unfolding run_def
  by (induction es arbitrary: w) (simp_all add: step_doors)

lemma keydown_closes_left:
  assumes "isPlaying (gameState w)" and "\<not> isGameOver (gameState w)"
    and "\<not> leftBroken (gameState w)" and "leftOpen (gameState w)"
    and "\<not> rightOpen (gameState w)" and "\<not> isGhostBlockingDoor SideLeft (ghostState w)"
  shows "\<not> leftOpen (gameState (keydown KeyQ w)) \<and> rightOpen (gameState (keydown KeyQ w))"
  using assms by (simp add: keydown_def Let_def)

lemma keydown_closes_right:
  assumes "isPlaying (gameState w)" and "\<not> isGameOver (gameState w)"
    and "\<not> rightBroken (gameState w)" and "rightOpen (gameState w)"
    and "\<not> leftOpen (gameState w)" and "\<not> isGhostBlockingDoor SideRight (ghostState w)"
  shows "\<not> rightOpen (gameState (keydown KeyE w)) \<and> leftOpen (gameState (keydown KeyE w))"
  using assms by (simp add: keydown_def Let_def)

text \<open>
  Claim C4. Whatever happens in a session that starts with both doors open (key presses,
  frames, clicks, restarts, in any order), at least one of the two doors is open
  afterwards. When a key press closes one door while the other one is closed, the other
  one is opened by the same key press.
\<close>

theorem door_mutual_exclusion:
  "(leftOpen (gameState (run initWorld es)) \<or> rightOpen (gameState (run initWorld es))) \<and>
   (isPlaying (gameState w) \<and> \<not> isGameOver (gameState w) \<and> \<not> leftBroken (gameState w) \<and>
    leftOpen (gameState w) \<and> \<not> rightOpen (gameState w) \<and>
    \<not> isGhostBlockingDoor SideLeft (ghostState w) \<longrightarrow>
      \<not> leftOpen (gameState (keydown KeyQ w)) \<and> rightOpen (gameState (keydown KeyQ w))) \<and>
   (isPlaying (gameState w') \<and> \<not> isGameOver (gameState w') \<and> \<not> rightBroken (gameState w') \<and>
    rightOpen (gameState w') \<and> \<not> leftOpen (gameState w') \<and>
    \<not> isGhostBlockingDoor SideRight (ghostState w') \<longrightarrow>
      \<not> rightOpen (gameState (keydown KeyE w')) \<and> leftOpen (gameState (keydown KeyE w')))"
proof (intro conjI impI)
  show "leftOpen (gameState (run initWorld es)) \<or> rightOpen (gameState (run initWorld es))"
    by (rule run_doors) (simp add: initWorld_def initGame_def)
qed (simp_all add: keydown_closes_left keydown_closes_right)

text \<open>The player closes the right door and then the left one, and the other way
  round.\<close>

theorem door_mutual_exclusion_witness:
  "leftOpen (gameState (run initWorld [PointerLockChange True, KeyDown KeyE])) = True \<and>
   rightOpen (gameState (run initWorld [PointerLockChange True, KeyDown KeyE])) = False \<and>
   leftOpen (gameState (run initWorld [PointerLockChange True, KeyDown KeyE, KeyDown KeyQ])) = False \<and>
   rightOpen (gameState (run initWorld [PointerLockChange True, KeyDown KeyE, KeyDown KeyQ])) = True \<and>
   leftOpen (gameState (run initWorld [PointerLockChange True, KeyDown KeyQ])) = False \<and>
   rightOpen (gameState (run initWorld [PointerLockChange True, KeyDown KeyQ])) = True \<and>
   leftOpen (gameState (run initWorld [PointerLockChange True, KeyDown KeyQ, KeyDown KeyE])) = True \<and>
   rightOpen (gameState (run initWorld [PointerLockChange True, KeyDown KeyQ, KeyDown KeyE])) = False"
proof -
  let ?l = "run initWorld [PointerLockChange True, KeyDown KeyE]"
  let ?r = "run initWorld [PointerLockChange True, KeyDown KeyQ]"
  have l: "isPlaying (gameState ?l)" "\<not> isGameOver (gameState ?l)" "\<not> leftBroken (gameState ?l)"
    "leftOpen (gameState ?l)" "\<not> rightOpen (gameState ?l)"
    "\<not> isGhostBlockingDoor SideLeft (ghostState ?l)"
    by (simp_all add: model_defs)
  have r: "isPlaying (gameState ?r)" "\<not> isGameOver (gameState ?r)" "\<not> rightBroken (gameState ?r)"
    "rightOpen (gameState ?r)" "\<not> leftOpen (gameState ?r)"
    "\<not> isGhostBlockingDoor SideRight (ghostState ?r)"
    by (simp_all add: model_defs)
  have s: "run initWorld [PointerLockChange True, KeyDown KeyE, KeyDown KeyQ] = keydown KeyQ ?l"
    "run initWorld [PointerLockChange True, KeyDown KeyQ, KeyDown KeyE] = keydown KeyE ?r"
    by (simp_all add: run_def step_def)
  from door_mutual_exclusion [of "[]" ?l ?r] l r show ?thesis
    unfolding s by simp
qed

subsection \<open>A broken door stays open\<close>

lemma keydown_left_broken:
  "leftBroken (gameState w) \<and> leftOpen (gameState w) \<Longrightarrow>
   leftBroken (gameState (keydown k w)) \<and> leftOpen (gameState (keydown k w))"
  by (cases k) (auto simp add: keydown_def triggerDoorBreak_def Let_def)

lemma keydown_right_broken:
  "rightBroken (gameState w) \<and> rightOpen (gameState w) \<Longrightarrow>
   rightBroken (gameState (keydown k w)) \<and> rightOpen (gameState (keydown k w))"
  by (cases k) (auto simp add: keydown_def triggerDoorBreak_def Let_def)

lemma step_overlay_idle: "\<not> isGameOver (gameState w) \<Longrightarrow> step w OverlayClick = w"
  by (simp add: step_def)

lemma step_left_broken:
  assumes "leftBroken (gameState w) \<and> leftOpen (gameState w)"
    and "\<not> (e = OverlayClick \<and> isGameOver (gameState w))"
  shows "leftBroken (gameState (step w e)) \<and> leftOpen (gameState (step w e))"
proof (cases e)
  case (KeyDown k)
  then show ?thesis using assms keydown_left_broken [of w k] by (simp add: step_def)
next
  case OverlayClick
  with assms show ?thesis by (simp add: step_overlay_idle)
qed (use assms in \<open>auto simp add: step_def animate_doors\<close>)

lemma step_right_broken:
  assumes "rightBroken (gameState w) \<and> rightOpen (gameState w)"
    and "\<not> (e = OverlayClick \<and> isGameOver (gameState w))"
  shows "rightBroken (gameState (step w e)) \<and> rightOpen (gameState (step w e))"
proof (cases e)
  case (KeyDown k)
  then show ?thesis using assms keydown_right_broken [of w k] by (simp add: step_def)
next
  case OverlayClick
  with assms show ?thesis by (simp add: step_overlay_idle)
qed (use assms in \<open>auto simp add: step_def animate_doors\<close>)

lemma run_left_broken:
  "leftBroken (gameState w) \<and> leftOpen (gameState w) \<Longrightarrow> noRestart w es \<Longrightarrow>
   leftBroken (gameState (run w es)) \<and> leftOpen (gameState (run w es))"
  unfolding run_def
proof (induction es arbitrary: w)
  case Nil
  then show ?case by simp
next
  case (Cons e es)
  from Cons.prems have "leftBroken (gameState (step w e)) \<and> leftOpen (gameState (step w e))"
    by (intro step_left_broken) auto
  with Cons show ?case by simp
qed

lemma run_right_broken:
  "rightBroken (gameState w) \<and> rightOpen (gameState w) \<Longrightarrow> noRestart w es \<Longrightarrow>
   rightBroken (gameState (run w es)) \<and> rightOpen (gameState (run w es))"
  unfolding run_def
proof (induction es arbitrary: w)
  case Nil
  then show ?case by simp
next
  case (Cons e es)
  from Cons.prems have "rightBroken (gameState (step w e)) \<and> rightOpen (gameState (step w e))"
    by (intro step_right_broken) auto
  with Cons show ?case by simp
qed

lemma noRestart_without_click: "OverlayClick \<notin> set es \<Longrightarrow> noRestart w es"
  by (induction es arbitrary: w) auto

lemma keydown_broken_noop:
  "leftBroken (gameState w) \<Longrightarrow> keydown KeyQ w = w"
  "rightBroken (gameState w) \<Longrightarrow> keydown KeyE w = w"
  by (simp_all add: keydown_def Let_def)

text \<open>
  Claim C5. \<^verbatim>\<open>triggerDoorBreak\<close> marks its door broken and open. From then on, whatever
  happens short of a restart (a click on the overlay while the game is over; pauses and
  the clicks that resume the game are no restart), the door stays broken and open, and
  pressing its key changes nothing at all.
\<close>

theorem broken_door_permanence:
  "leftBroken (gameState (triggerDoorBreak SideLeft w)) \<and>
   leftOpen (gameState (triggerDoorBreak SideLeft w)) \<and>
   rightBroken (gameState (triggerDoorBreak SideRight w)) \<and>
   rightOpen (gameState (triggerDoorBreak SideRight w)) \<and>
   (leftBroken (gameState w) \<and> leftOpen (gameState w) \<and> noRestart w es \<longrightarrow>
      leftBroken (gameState (run w es)) \<and> leftOpen (gameState (run w es)) \<and>
      keydown KeyQ (run w es) = run w es) \<and>
   (rightBroken (gameState w') \<and> rightOpen (gameState w') \<and> noRestart w' es \<longrightarrow>
      rightBroken (gameState (run w' es)) \<and> rightOpen (gameState (run w' es)) \<and>
      keydown KeyE (run w' es) = run w' es)"
proof (intro conjI impI)
  assume h: "leftBroken (gameState w) \<and> leftOpen (gameState w) \<and> noRestart w es"
  then have b: "leftBroken (gameState (run w es)) \<and> leftOpen (gameState (run w es))"
    by (intro run_left_broken) simp_all
  then show "leftBroken (gameState (run w es))" and "leftOpen (gameState (run w es))"
    and "keydown KeyQ (run w es) = run w es"
    by (simp_all add: keydown_broken_noop)
next
  assume h: "rightBroken (gameState w') \<and> rightOpen (gameState w') \<and> noRestart w' es"
  then have b: "rightBroken (gameState (run w' es)) \<and> rightOpen (gameState (run w' es))"
    by (intro run_right_broken) simp_all
  then show "rightBroken (gameState (run w' es))" and "rightOpen (gameState (run w' es))"
    and "keydown KeyE (run w' es) = run w' es"
    by (simp_all add: keydown_broken_noop)
qed (simp_all add: triggerDoorBreak_def Let_def)

lemma breach_world:
  "run initWorld breachTrace =
     \<lparr>gameState = \<lparr>isPlaying = True, leftOpen = True, rightOpen = True, leftBroken = True,
        rightBroken = False, isGameOver = False, flashlightOn = False\<rparr>,
      flashlightSystem = newFlashlight,
      ghostState = \<lparr>loaded = True, position = \<lparr>vx = - 18, vy = 4, vz = - 2\<rparr>,
        phase = Retreat, attackSide = SideLeft, wanderTimer = 4 / 5, rngCheckTimer = 0,
        stalkTimer = 0, exposureTimer = 0\<rparr>\<rparr>"
  by (simp add: breachTrace_def teleportTrace_def model_defs isIrradiated_def)

lemma breach_right_world:
  "run initWorld breachRightTrace =
     \<lparr>gameState = \<lparr>isPlaying = True, leftOpen = True, rightOpen = True, leftBroken = False,
        rightBroken = True, isGameOver = False, flashlightOn = False\<rparr>,
      flashlightSystem = newFlashlight,
      ghostState = \<lparr>loaded = True, position = \<lparr>vx = 18, vy = 4, vz = - 2\<rparr>,
        phase = Retreat, attackSide = SideRight, wanderTimer = 4 / 5, rngCheckTimer = 0,
        stalkTimer = 0, exposureTimer = 0\<rparr>\<rparr>"
  by (simp add: breachRightTrace_def model_defs isIrradiated_def)

text \<open>After the breach of either door the player pauses, resumes with a click on the
  overlay and presses both keys; a frame passes, and the player presses the left key
  again: the broken door is still open, also while the other door is closed.\<close>

theorem broken_door_permanence_witness:
  "leftBroken (gameState (run initWorld breachTrace)) = True \<and>
   leftOpen (gameState (run initWorld breachTrace)) = True \<and>
   rightBroken (gameState (run initWorld breachRightTrace)) = True \<and>
   rightOpen (gameState (run initWorld breachRightTrace)) = True \<and>
   OverlayClick \<in> set afterBreach \<and>
   noRestart (run initWorld breachTrace) afterBreach = True \<and>
   noRestart (run initWorld breachRightTrace) afterBreach = True \<and>
   leftBroken (gameState (run (run initWorld breachTrace) afterBreach)) = True \<and>
   leftOpen (gameState (run (run initWorld breachTrace) afterBreach)) = True \<and>
   rightOpen (gameState (run (run initWorld breachTrace) afterBreach)) = False \<and>
   keydown KeyQ (run (run initWorld breachTrace) afterBreach) =
     run (run initWorld breachTrace) afterBreach \<and>
   rightBroken (gameState (run (run initWorld breachRightTrace) afterBreach)) = True \<and>
   rightOpen (gameState (run (run initWorld breachRightTrace) afterBreach)) = True \<and>
   keydown KeyE (run (run initWorld breachRightTrace) afterBreach) =
     run (run initWorld breachRightTrace) afterBreach"
proof -
  have h: "leftBroken (gameState (run initWorld breachTrace))"
    "leftOpen (gameState (run initWorld breachTrace))"
    "rightBroken (gameState (run initWorld breachRightTrace))"
    "rightOpen (gameState (run initWorld breachRightTrace))"
    "OverlayClick \<in> set afterBreach"
    by (simp_all add: breach_world breach_right_world afterBreach_def)
  have n: "noRestart (run initWorld breachTrace) afterBreach"
    "noRestart (run initWorld breachRightTrace) afterBreach"
    unfolding breach_world breach_right_world
    by (simp_all add: afterBreach_def model_defs isIrradiated_def)
  have c: "rightOpen (gameState (run (run initWorld breachTrace) afterBreach)) = False"
    unfolding breach_world by (simp add: afterBreach_def model_defs)
  from broken_door_permanence
    [of "run initWorld breachTrace" afterBreach "run initWorld breachRightTrace"] h n c
  show ?thesis by simp
qed



section \<open>The end of the game\<close>

lemma updateEnemy_calls_le: "snd (updateEnemy fr gs g) \<le> 1"
  by (simp add: updateEnemy_def handleAttackPhase_def Let_def split: phase.split)

lemma gameOverCalls_le: "gameOverCalls w e \<le> 1"
  using updateEnemy_calls_le
  by (cases e) (simp_all add: gameOverCalls_def animate_def Let_def)

lemma gameOverCalls_sets_flag:
  assumes "gameOverCalls w e = 1"
  shows "isGameOver (gameState (step w e))"
proof (cases e)
  case (Animate fr)
  with assms show ?thesis
    by (auto simp add: gameOverCalls_def step_def animate_def Let_def onGameOver_def
        split: if_splits)
qed (use assms in \<open>simp_all add: gameOverCalls_def\<close>)

lemma gameOver_no_calls: "isGameOver (gameState w) \<Longrightarrow> gameOverCalls w e = 0"
  by (cases e) (simp_all add: gameOverCalls_def animate_def Let_def)

lemma gameOver_step:
  "isGameOver (gameState w) \<Longrightarrow> e \<noteq> OverlayClick \<Longrightarrow> isGameOver (gameState (step w e))"
  by (cases e) (simp_all add: step_def animate_def keydown_def Let_def)

lemma gameOver_run_calls:
  "isGameOver (gameState w) \<Longrightarrow> OverlayClick \<notin> set es \<Longrightarrow>
   totalGameOverCalls w es = 0 \<and> isGameOver (gameState (run w es))"
  unfolding run_def
proof (induction es arbitrary: w)
  case Nil
  then show ?case by simp
next
  case (Cons e es)
  from Cons.prems have "isGameOver (gameState (step w e))"
    by (intro gameOver_step) auto
  with Cons show ?case by (simp add: gameOver_no_calls)
qed

lemma session_calls_le:
  "OverlayClick \<notin> set es \<Longrightarrow> totalGameOverCalls w es \<le> 1"
proof (induction es arbitrary: w)
  case Nil
  then show ?case by simp
next
  case (Cons e es)
  show ?case
  proof (cases "gameOverCalls w e = 1")
    case True
    then have "isGameOver (gameState (step w e))" by (rule gameOverCalls_sets_flag)
    with Cons.prems have "totalGameOverCalls (step w e) es = 0"
      using gameOver_run_calls [of "step w e" es] by simp
    with True show ?thesis by simp
  next
    case False
    with gameOverCalls_le [of w e] have "gameOverCalls w e = 0" by simp
    with Cons show ?thesis by simp
  qed
qed

lemma attack_fires:
  assumes "isPlaying (gameState w)" and "\<not> isGameOver (gameState w)"
    and "loaded (ghostState w)" and "phase (ghostState w) = Attack"
    and "distanceTo (lerp (position (ghostState w)) (camPos fr) (delta fr * 8)) (camPos fr)
         < 0.5"
  shows "gameOverCalls w (Animate fr) = 1"
  using assms
  by (simp add: gameOverCalls_def animate_def updateEnemy_def handleAttackPhase_def Let_def)

lemma totalGameOverCalls_append:
  "totalGameOverCalls w (es @ es') =
     totalGameOverCalls w es + totalGameOverCalls (run w es) es'"
  by (induction es arbitrary: w) (simp_all add: run_def)

text \<open>
  Claim C3. In a frame of a running game in which the attacking ghost, after its move
  towards the camera, is closer to it than 0.5, the game-over callback is invoked, and
  no event invokes it more than once. The invocation sets \<^verbatim>\<open>isGameOver\<close>; from then on,
  until the player restarts with a click on the overlay, no event invokes the callback
  again. So a session without a restart invokes it at most once.
\<close>

theorem game_over_fires_once:
  "(isPlaying (gameState w) \<and> \<not> isGameOver (gameState w) \<and> loaded (ghostState w) \<and>
    phase (ghostState w) = Attack \<and>
    distanceTo (lerp (position (ghostState w)) (camPos fr) (delta fr * 8)) (camPos fr) < 0.5
      \<longrightarrow> gameOverCalls w (Animate fr) = 1) \<and>
   gameOverCalls w e \<le> 1 \<and>
   (gameOverCalls w e = 1 \<longrightarrow> isGameOver (gameState (step w e))) \<and>
   (isGameOver (gameState w) \<and> OverlayClick \<notin> set es \<longrightarrow>
      totalGameOverCalls w es = 0 \<and> isGameOver (gameState (run w es))) \<and>
   (OverlayClick \<notin> set es \<longrightarrow> totalGameOverCalls w es \<le> 1)"
proof (intro conjI impI)
  assume "isGameOver (gameState w) \<and> OverlayClick \<notin> set es"
  then have "totalGameOverCalls w es = 0 \<and> isGameOver (gameState (run w es))"
    by (intro gameOver_run_calls) simp_all
  then show "totalGameOverCalls w es = 0" and "isGameOver (gameState (run w es))"
    by simp_all
next
  show "gameOverCalls w e \<le> 1" by (rule gameOverCalls_le)
next
  assume "OverlayClick \<notin> set es"
  then show "totalGameOverCalls w es \<le> 1" by (rule session_calls_le)
qed (simp_all add: attack_fires gameOverCalls_sets_flag)

lemma attack_world:
  "run initWorld (butlast gameOverTrace) =
     \<lparr>gameState = \<lparr>isPlaying = True, leftOpen = True, rightOpen = True, leftBroken = False,
        rightBroken = False, isGameOver = False, flashlightOn = False\<rparr>,
      flashlightSystem = \<lparr>isOn = False, isDepleted = True, battery = 0, usageTimer = 0,
        rechargeTimer = 4, buttonX = - 0.055, intensity = 0\<rparr>,
      ghostState = \<lparr>loaded = True, position = \<lparr>vx = - 18, vy = 4, vz = - 2\<rparr>,
        phase = Attack, attackSide = SideLeft, wanderTimer = 15 / 2, rngCheckTimer = 0,
        stalkTimer = 4, exposureTimer = 0\<rparr>\<rparr>"
  unfolding gameOverTrace_def
  by (simp add: butlast_append run_append depletion_world) (simp add: model_defs isIrradiated_def)

text \<open>
  The session that ends in the ghost's attack: the frame in which the ghost reaches the
  camera invokes the callback, and the frames, key presses and clicks after it do not.
\<close>

theorem game_over_fires_once_witness:
  "isPlaying (gameState (run initWorld (butlast gameOverTrace))) = True \<and>
   isGameOver (gameState (run initWorld (butlast gameOverTrace))) = False \<and>
   phase (ghostState (run initWorld (butlast gameOverTrace))) = Attack \<and>
   gameOverCalls (run initWorld (butlast gameOverTrace)) (Animate (plainFrame 0.125 0.5 0.5)) = 1 \<and>
   isGameOver (gameState (run initWorld gameOverTrace)) = True \<and>
   OverlayClick \<notin> set afterGameOver \<and>
   totalGameOverCalls (run initWorld gameOverTrace) afterGameOver = 0 \<and>
   isGameOver (gameState (run (run initWorld gameOverTrace) afterGameOver)) = True \<and>
   OverlayClick \<notin> set (gameOverTrace @ afterGameOver) \<and>
   totalGameOverCalls initWorld (gameOverTrace @ afterGameOver) = 1"
proof -
  let ?a = "run initWorld (butlast gameOverTrace)"
  let ?fr = "plainFrame 0.125 0.5 0.5"
  let ?w = "run initWorld gameOverTrace"
  have a: "isPlaying (gameState ?a)" "\<not> isGameOver (gameState ?a)" "loaded (ghostState ?a)"
    "phase (ghostState ?a) = Attack"
    "distanceTo (lerp (position (ghostState ?a)) (camPos ?fr) (delta ?fr * 8)) (camPos ?fr) < 0.5"
    by (simp_all add: attack_world) (simp add: model_defs)
  have n: "OverlayClick \<notin> set afterGameOver" "OverlayClick \<notin> set (gameOverTrace @ afterGameOver)"
    by (simp_all add: afterGameOver_def gameOverTrace_def depletionTrace_def)
  have g: "isGameOver (gameState ?w)"
    by (simp add: gameOver_world)
  have f: "gameOverCalls ?a (Animate ?fr) = 1"
    using game_over_fires_once [of ?a ?fr "Animate ?fr" "[]"] a by blast
  have r: "totalGameOverCalls ?w afterGameOver = 0 \<and> isGameOver (gameState (run ?w afterGameOver))"
    using game_over_fires_once [of ?w ?fr "Animate ?fr" afterGameOver] g n by blast
  have l: "butlast gameOverTrace @ [Animate ?fr] = gameOverTrace"
    by (simp add: gameOverTrace_def butlast_append)
  have "OverlayClick \<notin> set gameOverTrace"
    using n(2) by simp
  then have le: "totalGameOverCalls initWorld gameOverTrace \<le> 1"
    using game_over_fires_once [of initWorld ?fr "Animate ?fr" gameOverTrace] by blast
  have "totalGameOverCalls initWorld (butlast gameOverTrace @ [Animate ?fr]) =
        totalGameOverCalls initWorld (butlast gameOverTrace) + gameOverCalls ?a (Animate ?fr)"
    by (simp add: totalGameOverCalls_append)
  then have "totalGameOverCalls initWorld gameOverTrace =
        totalGameOverCalls initWorld (butlast gameOverTrace) + gameOverCalls ?a (Animate ?fr)"
    unfolding l .
  with le f have t: "totalGameOverCalls initWorld gameOverTrace = 1"
    by simp
  have "totalGameOverCalls initWorld (gameOverTrace @ afterGameOver) = 1"
    using t r by (simp add: totalGameOverCalls_append)
  with a f g n r show ?thesis by simp
qed



section \<open>The stalking ghost\<close>

lemma move_fields [simp]:
  "phase (moveX a g) = phase g" "phase (moveY a g) = phase g" "phase (moveZ a g) = phase g"
  "stalkTimer (moveX a g) = stalkTimer g" "stalkTimer (moveY a g) = stalkTimer g"
  "stalkTimer (moveZ a g) = stalkTimer g"
  "exposureTimer (moveX a g) = exposureTimer g" "exposureTimer (moveY a g) = exposureTimer g"
  "exposureTimer (moveZ a g) = exposureTimer g"
  "loaded (moveX a g) = loaded g" "loaded (moveY a g) = loaded g"
  "loaded (moveZ a g) = loaded g"
  "attackSide (moveX a g) = attackSide g" "attackSide (moveY a g) = attackSide g"
  "attackSide (moveZ a g) = attackSide g"
  by (simp_all add: moveX_def moveY_def moveZ_def)

lemma isIrradiated_timers [simp]:
  "isIrradiated fr gs (g\<lparr>stalkTimer := t\<rparr>) = isIrradiated fr gs g"
  "isIrradiated fr gs (g\<lparr>exposureTimer := t\<rparr>) = isIrradiated fr gs g"
  by (simp_all add: isIrradiated_def)

lemma isIrradiated_off: "\<not> flashlightOn gs \<Longrightarrow> \<not> isIrradiated fr gs g"
  by (simp add: isIrradiated_def)

text \<open>A camera that looks straight at the ghost irradiates it.\<close>

lemma dot_normalize_self:
  assumes "vlength v \<noteq> 0"
  shows "dot (normalize v) (normalize v) = 1"
proof -
  let ?q = "vx v * vx v + vy v * vy v + vz v * vz v"
  have sq: "vlength v * vlength v = ?q"
    by (simp add: vlength_def)
  have "dot (normalize v) (normalize v) = ?q / (vlength v * vlength v)"
    using assms
    by (simp add: dot_def normalize_def multiplyScalar_def vec_def add_divide_distrib)
  also have "\<dots> = 1"
    using assms by (simp add: sq [symmetric])
  finally show ?thesis .
qed

lemma aimed_irradiated:
  assumes "flashlightOn gs" and "position g = ghostAtLeftDoor"
  shows "isIrradiated (aimedFrame d) gs g = True"
proof -
  have "vlength (subVectors ghostAtLeftDoor cameraHome) \<noteq> 0"
    by (simp add: vlength_def subVectors_def ghostAtLeftDoor_def cameraHome_def vec_def)
  then show ?thesis
    using assms by (simp add: isIrradiated_def aimedFrame_def dot_normalize_self)
qed

lemma aimedFrame_fields:
  "delta (aimedFrame d) = d" "camPos (aimedFrame d) = cameraHome"
  "dateNow (aimedFrame d) = 1730000000000"
  "random1 (aimedFrame d) = 0.5" "random2 (aimedFrame d) = 0.5"
  by (simp_all add: aimedFrame_def)

subsection \<open>One frame of stalking\<close>

lemma handleStalkPhase_phase:
  "phase g = Stalk \<Longrightarrow>
   phase (handleStalkPhase fr gs g) =
     (if isIrradiated fr gs g \<and> exposureTimer g + delta fr \<ge> 2 then Retreat
      else if stalkTimer g + delta fr \<ge> 4 \<and>
              exposureTimer g + (if isIrradiated fr gs g then delta fr else 0) < 2 then Attack
      else Stalk)"
  by (simp add: handleStalkPhase_def Let_def)

lemma handleStalkPhase_timers:
  "stalkTimer (handleStalkPhase fr gs g) = stalkTimer g + delta fr"
  "exposureTimer (handleStalkPhase fr gs g) =
     exposureTimer g + (if isIrradiated fr gs g then delta fr else 0)"
  "loaded (handleStalkPhase fr gs g) = loaded g"
  by (simp_all add: handleStalkPhase_def Let_def)

lemma updateEnemy_Stalk:
  "loaded g \<Longrightarrow> phase g = Stalk \<Longrightarrow> updateEnemy fr gs g = (handleStalkPhase fr gs g, 0)"
  by (simp add: updateEnemy_def)

lemma updateEnemy_Attack:
  assumes "loaded g" and "phase g = Attack"
  shows "phase (fst (updateEnemy fr gs g)) = Attack"
    and "stalkTimer (fst (updateEnemy fr gs g)) = stalkTimer g"
    and "exposureTimer (fst (updateEnemy fr gs g)) = exposureTimer g"
    and "loaded (fst (updateEnemy fr gs g))"
  using assms by (simp_all add: updateEnemy_def handleAttackPhase_def Let_def)

subsection \<open>Frames without light\<close>

lemma dark_frames:
  assumes "undecided g"
    and "\<forall>fg \<in> set fgs. \<not> flashlightOn (snd fg) \<and> 0 \<le> delta (fst fg)"
  shows "exposureTimer (enemyFrames g fgs) = exposureTimer g \<and>
         phase (enemyFrames g fgs) =
           (if 4 \<le> (if phase g = Stalk then stalkTimer g + sum_list (map (delta \<circ> fst) fgs)
                      else stalkTimer g) then Attack else Stalk)"
  using assms
proof (induction fgs arbitrary: g)
  case Nil
  then show ?case by (auto simp add: undecided_def)
next
  case (Cons fg fgs)
  obtain fr gs where fg: "fg = (fr, gs)" by (cases fg)
  let ?g = "fst (updateEnemy fr gs g)"
  from Cons.prems fg have off: "\<not> flashlightOn gs" and dt: "0 \<le> delta fr" by auto
  from Cons.prems have rest: "\<forall>fg \<in> set fgs. \<not> flashlightOn (snd fg) \<and> 0 \<le> delta (fst fg)"
    by simp
  have nonneg: "0 \<le> sum_list (map (delta \<circ> fst) fgs)"
    using rest by (intro sum_list_nonneg) auto
  show ?case
  proof (cases "phase g = Stalk")
    case True
    with Cons.prems(1) have l: "loaded g" and e: "exposureTimer g < 2"
      and s: "stalkTimer g < 4"
      by (auto simp add: undecided_def)
    have g': "?g = handleStalkPhase fr gs g"
      using l True by (simp add: updateEnemy_Stalk)
    have ph: "phase ?g = (if 4 \<le> stalkTimer g + delta fr then Attack else Stalk)"
      using True e off by (simp add: g' handleStalkPhase_phase isIrradiated_off)
    have tm: "stalkTimer ?g = stalkTimer g + delta fr" "exposureTimer ?g = exposureTimer g"
      "loaded ?g"
      using off l by (simp_all add: g' handleStalkPhase_timers isIrradiated_off)
    have u: "undecided ?g"
      using ph tm e by (auto simp add: undecided_def)
    from Cons.IH [OF u rest] ph tm nonneg True show ?thesis
      by (auto simp add: fg)
  next
    case False
    with Cons.prems(1) have l: "loaded g" and a: "phase g = Attack"
      and s: "4 \<le> stalkTimer g" and e: "exposureTimer g < 2"
      by (auto simp add: undecided_def)
    note at = updateEnemy_Attack [OF l a, of fr gs]
    have u: "undecided ?g"
      using at s e by (simp add: undecided_def)
    from Cons.IH [OF u rest] at s a show ?thesis
      by (simp add: fg)
  qed
qed

text \<open>
  Claim C7. One frame of a stalking ghost adds the frame's delta to \<^verbatim>\<open>stalkTimer\<close>, and
  to \<^verbatim>\<open>exposureTimer\<close> when the ghost is irradiated in this frame; without irradiation
  the exposure stays as it is (it does not decay). If the ghost is irradiated and its
  exposure reaches 2.0, the phase becomes Retreat. If the stalk time reaches 4.0 and the
  exposure is still below 2.0, the phase becomes Attack. Otherwise the ghost goes on
  stalking. In particular, a ghost with an exposure below 2.0 (say, after one second of
  irradiation) that is not irradiated any more keeps its exposure and attacks as soon as
  its stalk time reaches 4.0.
\<close>

theorem stalk_outcomes:
  assumes "loaded g" and "phase g = Stalk"
  shows
    "stalkTimer (fst (updateEnemy fr gs g)) = stalkTimer g + delta fr \<and>
     exposureTimer (fst (updateEnemy fr gs g)) =
       exposureTimer g + (if isIrradiated fr gs g then delta fr else 0) \<and>
     (isIrradiated fr gs g \<and> 2 \<le> exposureTimer g + delta fr \<longrightarrow>
        phase (fst (updateEnemy fr gs g)) = Retreat) \<and>
     (4 \<le> stalkTimer g + delta fr \<and> exposureTimer (fst (updateEnemy fr gs g)) < 2 \<longrightarrow>
        phase (fst (updateEnemy fr gs g)) = Attack) \<and>
     (stalkTimer g + delta fr < 4 \<and> exposureTimer (fst (updateEnemy fr gs g)) < 2 \<longrightarrow>
        phase (fst (updateEnemy fr gs g)) = Stalk) \<and>
     (exposureTimer g < 2 \<and> stalkTimer g < 4 \<and>
      (\<forall>fg \<in> set fgs. \<not> flashlightOn (snd fg) \<and> 0 \<le> delta (fst fg)) \<longrightarrow>
        exposureTimer (enemyFrames g fgs) = exposureTimer g \<and>
        phase (enemyFrames g fgs) =
          (if 4 \<le> stalkTimer g + sum_list (map (delta \<circ> fst) fgs) then Attack else Stalk))"
proof -
  have u: "fst (updateEnemy fr gs g) = handleStalkPhase fr gs g"
    using assms by (simp add: updateEnemy_Stalk)
  have one: "stalkTimer (fst (updateEnemy fr gs g)) = stalkTimer g + delta fr"
    "exposureTimer (fst (updateEnemy fr gs g)) =
       exposureTimer g + (if isIrradiated fr gs g then delta fr else 0)"
    "isIrradiated fr gs g \<and> 2 \<le> exposureTimer g + delta fr \<longrightarrow>
       phase (fst (updateEnemy fr gs g)) = Retreat"
    "4 \<le> stalkTimer g + delta fr \<and> exposureTimer (fst (updateEnemy fr gs g)) < 2 \<longrightarrow>
       phase (fst (updateEnemy fr gs g)) = Attack"
    "stalkTimer g + delta fr < 4 \<and> exposureTimer (fst (updateEnemy fr gs g)) < 2 \<longrightarrow>
       phase (fst (updateEnemy fr gs g)) = Stalk"
    unfolding u using assms(2)
    by (simp_all add: handleStalkPhase_phase handleStalkPhase_timers)
  have many: "exposureTimer (enemyFrames g fgs) = exposureTimer g \<and>
        phase (enemyFrames g fgs) =
          (if 4 \<le> stalkTimer g + sum_list (map (delta \<circ> fst) fgs) then Attack else Stalk)"
    if "exposureTimer g < 2 \<and> stalkTimer g < 4 \<and>
      (\<forall>fg \<in> set fgs. \<not> flashlightOn (snd fg) \<and> 0 \<le> delta (fst fg))"
  proof -
    from that assms have "undecided g" by (simp add: undecided_def)
    from dark_frames [OF this, of fgs] that assms(2) show ?thesis by simp
  qed
  from one many show ?thesis by blast
qed

lemma teleport_world:
  "run initWorld teleportTrace =
     \<lparr>gameState = \<lparr>isPlaying = True, leftOpen = True, rightOpen = True, leftBroken = False,
        rightBroken = False, isGameOver = False, flashlightOn = False\<rparr>,
      flashlightSystem = newFlashlight,
      ghostState = \<lparr>loaded = True, position = \<lparr>vx = - 18, vy = 4, vz = - 2\<rparr>,
        phase = Stalk, attackSide = SideLeft, wanderTimer = 4 / 5, rngCheckTimer = 0,
        stalkTimer = 0, exposureTimer = 0\<rparr>\<rparr>"
  by (simp add: teleportTrace_def model_defs isIrradiated_def)

lemma irradiated_world:
  "run initWorld irradiatedTrace =
     \<lparr>gameState = \<lparr>isPlaying = True, leftOpen = True, rightOpen = True, leftBroken = False,
        rightBroken = False, isGameOver = False, flashlightOn = True\<rparr>,
      flashlightSystem = \<lparr>isOn = True, isDepleted = False, battery = 5, usageTimer = 1,
        rechargeTimer = 0, buttonX = - 0.055, intensity = 150\<rparr>,
      ghostState = \<lparr>loaded = True, position = \<lparr>vx = - 18, vy = 4, vz = - 2\<rparr>,
        phase = Stalk, attackSide = SideLeft, wanderTimer = 4 / 5, rngCheckTimer = 0,
        stalkTimer = 1, exposureTimer = 1\<rparr>\<rparr>"
  unfolding irradiatedTrace_def run_append teleport_world
  by (simp add: model_defs aimedFrame_fields aimed_irradiated)

lemma banish_world:
  "run initWorld banishTrace =
     \<lparr>gameState = \<lparr>isPlaying = True, leftOpen = True, rightOpen = True, leftBroken = False,
        rightBroken = False, isGameOver = False, flashlightOn = True\<rparr>,
      flashlightSystem = \<lparr>isOn = True, isDepleted = False, battery = 5, usageTimer = 2,
        rechargeTimer = 0, buttonX = - 0.055, intensity = 150\<rparr>,
      ghostState = \<lparr>loaded = True, position = \<lparr>vx = - 18, vy = 4, vz = - 2\<rparr>,
        phase = Retreat, attackSide = SideLeft, wanderTimer = 4 / 5, rngCheckTimer = 0,
        stalkTimer = 2, exposureTimer = 2\<rparr>\<rparr>"
  unfolding banishTrace_def run_append irradiated_world
  by (simp add: model_defs aimedFrame_fields aimed_irradiated)

lemma timeout_world:
  "run initWorld timeoutTrace =
     \<lparr>gameState = \<lparr>isPlaying = True, leftOpen = True, rightOpen = True, leftBroken = False,
        rightBroken = False, isGameOver = False, flashlightOn = True\<rparr>,
      flashlightSystem = \<lparr>isOn = False, isDepleted = False, battery = 5, usageTimer = 1,
        rechargeTimer = 0, buttonX = - 0.055, intensity = 0\<rparr>,
      ghostState = \<lparr>loaded = True, position = \<lparr>vx = - 18, vy = 4, vz = - 2\<rparr>,
        phase = Stalk, attackSide = SideLeft, wanderTimer = 4 / 5, rngCheckTimer = 0,
        stalkTimer = 1, exposureTimer = 1\<rparr>\<rparr>"
  unfolding timeoutTrace_def run_append irradiated_world
  by (simp add: model_defs)

text \<open>
  The ghost has stood at the left door for one second in the light. A second one in the
  light banishes it; three seconds without light instead, and it attacks with its
  exposure still at 1.
\<close>

theorem stalk_outcomes_witness:
  "loaded (ghostState (run initWorld irradiatedTrace)) = True \<and>
   phase (ghostState (run initWorld irradiatedTrace)) = Stalk \<and>
   stalkTimer (ghostState (run initWorld irradiatedTrace)) = 1 \<and>
   exposureTimer (ghostState (run initWorld irradiatedTrace)) = 1 \<and>
   isIrradiated (aimedFrame 1) (gameState (run initWorld irradiatedTrace))
     (ghostState (run initWorld irradiatedTrace)) = True \<and>
   phase (fst (updateEnemy (aimedFrame 1) (gameState (run initWorld irradiatedTrace))
     (ghostState (run initWorld irradiatedTrace)))) = Retreat \<and>
   exposureTimer (fst (updateEnemy (aimedFrame 1) (gameState (run initWorld irradiatedTrace))
     (ghostState (run initWorld irradiatedTrace)))) = 2 \<and>
   sum_list (map (delta \<circ> fst) darkFrames) = 3 \<and>
   phase (enemyFrames (ghostState (run initWorld irradiatedTrace)) darkFrames) = Attack \<and>
   exposureTimer (enemyFrames (ghostState (run initWorld irradiatedTrace)) darkFrames) = 1 \<and>
   phase (enemyFrames (ghostState (run initWorld irradiatedTrace)) (butlast darkFrames)) = Stalk"
proof -
  let ?g = "ghostState (run initWorld irradiatedTrace)"
  let ?gs = "gameState (run initWorld irradiatedTrace)"
  have h: "loaded ?g" "phase ?g = Stalk" "stalkTimer ?g = 1" "exposureTimer ?g = 1"
    by (simp_all add: irradiated_world)
  have i: "isIrradiated (aimedFrame 1) ?gs ?g = True"
    by (rule aimed_irradiated) (simp_all add: irradiated_world ghostAtLeftDoor_def vec_def)
  have d: "\<forall>fg \<in> set darkFrames. \<not> flashlightOn (snd fg) \<and> 0 \<le> delta (fst fg)"
    "\<forall>fg \<in> set (butlast darkFrames). \<not> flashlightOn (snd fg) \<and> 0 \<le> delta (fst fg)"
    "sum_list (map (delta \<circ> fst) darkFrames) = 3"
    "sum_list (map (delta \<circ> fst) (butlast darkFrames)) = 2"
    by (simp_all add: darkFrames_def plainFrame_def initGame_def numeral_3_eq_3)
  from stalk_outcomes [OF h(1,2), of "aimedFrame 1" ?gs darkFrames]
    stalk_outcomes [OF h(1,2), of "aimedFrame 1" ?gs "butlast darkFrames"] h i d
  show ?thesis
    by (simp add: aimedFrame_fields)
qed



section \<open>Where the stalk timers are reset\<close>

lemma handleWanderPhase_timers:
  "phase (handleWanderPhase fr gs g) \<noteq> Stalk \<Longrightarrow>
   stalkTimer (handleWanderPhase fr gs g) = stalkTimer g \<and>
   exposureTimer (handleWanderPhase fr gs g) = exposureTimer g"
  by (auto simp add: handleWanderPhase_def triggerNormalAttack_def teleportToDoor_def Let_def
      split: if_splits)

lemma handleWanderPhase_entry:
  "phase g \<noteq> Stalk \<Longrightarrow> phase (handleWanderPhase fr gs g) = Stalk \<Longrightarrow>
   stalkTimer (handleWanderPhase fr gs g) = 0 \<and> exposureTimer (handleWanderPhase fr gs g) = 0"
  by (auto simp add: handleWanderPhase_def triggerNormalAttack_def teleportToDoor_def Let_def
      split: if_splits)

lemma handleApproachPhase_timers:
  "phase (handleApproachPhase fr gs g) \<noteq> Stalk \<or> phase g = Stalk"
  "stalkTimer (handleApproachPhase fr gs g) = stalkTimer g"
  "exposureTimer (handleApproachPhase fr gs g) = exposureTimer g"
  by (simp_all add: handleApproachPhase_def Let_def)

lemma handleRetreatPhase_timers:
  "phase (handleRetreatPhase fr g) \<noteq> Stalk \<or> phase g = Stalk"
  "stalkTimer (handleRetreatPhase fr g) = stalkTimer g"
  "exposureTimer (handleRetreatPhase fr g) = exposureTimer g"
  by (simp_all add: handleRetreatPhase_def Let_def)

lemma handleAttackPhase_timers:
  "phase (fst (handleAttackPhase fr g)) = phase g"
  "stalkTimer (fst (handleAttackPhase fr g)) = stalkTimer g"
  "exposureTimer (fst (handleAttackPhase fr g)) = exposureTimer g"
  by (simp_all add: handleAttackPhase_def Let_def)

lemma updateEnemy_entry:
  assumes "phase g \<noteq> Stalk" and "phase (fst (updateEnemy fr gs g)) = Stalk"
  shows "stalkTimer (fst (updateEnemy fr gs g)) = 0 \<and>
         exposureTimer (fst (updateEnemy fr gs g)) = 0"
proof (cases "loaded g")
  case False
  with assms show ?thesis by (simp add: updateEnemy_def)
next
  case True
  let ?g = "moveY (4 + sin (dateNow fr * 0.001 * 2) * 0.5) g"
  show ?thesis
  proof (cases "phase g")
    case Wander
    with True assms handleWanderPhase_entry [of ?g fr gs] show ?thesis
      by (simp add: updateEnemy_def)
  next
    case Approach
    with True assms handleApproachPhase_timers(1) [of fr gs ?g] show ?thesis
      by (simp add: updateEnemy_def)
  next
    case Stalk
    with assms show ?thesis by simp
  next
    case Attack
    with True assms show ?thesis by (simp add: updateEnemy_def handleAttackPhase_timers)
  next
    case Retreat
    with True assms handleRetreatPhase_timers(1) [of fr ?g] show ?thesis
      by (simp add: updateEnemy_def)
  qed
qed

lemma updateEnemy_outside:
  assumes "phase g \<noteq> Stalk" and "phase (fst (updateEnemy fr gs g)) \<noteq> Stalk"
  shows "stalkTimer (fst (updateEnemy fr gs g)) = stalkTimer g \<and>
         exposureTimer (fst (updateEnemy fr gs g)) = exposureTimer g"
proof (cases "loaded g")
  case False
  then show ?thesis by (simp add: updateEnemy_def)
next
  case True
  let ?g = "moveY (4 + sin (dateNow fr * 0.001 * 2) * 0.5) g"
  show ?thesis
  proof (cases "phase g")
    case Wander
    with True assms handleWanderPhase_timers [of fr gs ?g] show ?thesis
      by (simp add: updateEnemy_def)
  next
    case Approach
    with True show ?thesis by (simp add: updateEnemy_def handleApproachPhase_timers)
  next
    case Stalk
    with assms show ?thesis by simp
  next
    case Attack
    with True show ?thesis by (simp add: updateEnemy_def handleAttackPhase_timers)
  next
    case Retreat
    with True show ?thesis by (simp add: updateEnemy_def handleRetreatPhase_timers)
  qed
qed

lemma updateEnemy_exit:
  assumes "phase g = Stalk" and "phase (fst (updateEnemy fr gs g)) \<noteq> Stalk"
  shows "stalkTimer (fst (updateEnemy fr gs g)) = stalkTimer g + delta fr \<and>
         exposureTimer (fst (updateEnemy fr gs g)) =
           exposureTimer g + (if isIrradiated fr gs g then delta fr else 0) \<and>
         (phase (fst (updateEnemy fr gs g)) = Retreat \<and>
            exposureTimer (fst (updateEnemy fr gs g)) = exposureTimer g + delta fr \<and>
            2 \<le> exposureTimer (fst (updateEnemy fr gs g))
          \<or> phase (fst (updateEnemy fr gs g)) = Attack \<and>
            exposureTimer (fst (updateEnemy fr gs g)) < 2 \<and>
            4 \<le> stalkTimer (fst (updateEnemy fr gs g)))"
proof (cases "loaded g")
  case False
  with assms show ?thesis by (simp add: updateEnemy_def)
next
  case True
  with assms(1) have u: "fst (updateEnemy fr gs g) = handleStalkPhase fr gs g"
    by (simp add: updateEnemy_def)
  from assms show ?thesis
    unfolding u by (simp add: handleStalkPhase_phase handleStalkPhase_timers split: if_splits)
qed

lemma animate_ghost:
  "ghostState (fst (animate fr w)) = ghostState w \<or>
   ghostState (fst (animate fr w)) =
     fst (updateEnemy fr
       ((gameState w)\<lparr>flashlightOn := isOn (update (delta fr) (flashlightSystem w))\<rparr>)
       (ghostState w))"
  by (simp add: animate_def Let_def)

lemma keydown_ghost:
  "ghostState (keydown k w) = ghostState w \<or>
   ghostState (keydown k w) = onGhostHitByDoor (ghostState w)"
  by (cases k) (simp_all add: keydown_def triggerDoorBreak_def Let_def)

lemma step_ghost_other:
  "e = MouseDown \<or> e = MouseUp \<or> e = PointerLockChange b \<Longrightarrow>
   ghostState (step w e) = ghostState w"
  by (auto simp add: step_def)

lemma step_entry:
  assumes "phase (ghostState w) \<noteq> Stalk" and "phase (ghostState (step w e)) = Stalk"
  shows "stalkTimer (ghostState (step w e)) = 0 \<and> exposureTimer (ghostState (step w e)) = 0"
proof (cases e)
  case (Animate fr)
  let ?gs = "(gameState w)\<lparr>flashlightOn := isOn (update (delta fr) (flashlightSystem w))\<rparr>"
  from Animate assms animate_ghost [of fr w] updateEnemy_entry [of "ghostState w" fr ?gs]
  show ?thesis
    by (auto simp add: step_def)
next
  case (KeyDown k)
  with assms keydown_ghost [of k w] show ?thesis
    by (auto simp add: step_def onGhostHitByDoor_def)
next
  case OverlayClick
  with assms show ?thesis
    by (simp add: step_def restartGame_def resetEnemy_def Let_def split: if_splits)
next
  case GhostModelLoaded
  with assms show ?thesis by (simp add: step_def ghostModelLoaded_def)
qed (use assms in \<open>simp_all add: step_ghost_other\<close>)

lemma step_exit_frame:
  assumes "phase (ghostState w) = Stalk"
    and "phase (ghostState (step w (Animate fr))) \<noteq> Stalk"
  shows "stalkTimer (ghostState (step w (Animate fr))) = stalkTimer (ghostState w) + delta fr \<and>
         exposureTimer (ghostState (step w (Animate fr))) =
           exposureTimer (ghostState w) +
           (if isIrradiated fr
                 ((gameState w)\<lparr>flashlightOn := isOn (update (delta fr) (flashlightSystem w))\<rparr>)
                 (ghostState w)
            then delta fr else 0) \<and>
         (phase (ghostState (step w (Animate fr))) = Retreat \<and>
            exposureTimer (ghostState (step w (Animate fr))) =
              exposureTimer (ghostState w) + delta fr \<and>
            2 \<le> exposureTimer (ghostState (step w (Animate fr)))
          \<or> phase (ghostState (step w (Animate fr))) = Attack \<and>
            exposureTimer (ghostState (step w (Animate fr))) < 2 \<and>
            4 \<le> stalkTimer (ghostState (step w (Animate fr))))"
proof -
  let ?gs = "(gameState w)\<lparr>flashlightOn := isOn (update (delta fr) (flashlightSystem w))\<rparr>"
  from assms animate_ghost [of fr w]
  have g: "ghostState (step w (Animate fr)) = fst (updateEnemy fr ?gs (ghostState w))"
    by (auto simp add: step_def)
  from assms(2) updateEnemy_exit [of "ghostState w" fr ?gs, OF assms(1)]
  show ?thesis
    unfolding g by blast
qed

lemma step_exit_forced:
  assumes "phase (ghostState w) = Stalk" and "phase (ghostState (step w e)) \<noteq> Stalk"
    and "\<forall>fr. e \<noteq> Animate fr"
  shows "stalkTimer (ghostState (step w e)) = 0 \<and> exposureTimer (ghostState (step w e)) = 0"
proof (cases e)
  case (Animate fr)
  with assms(3) show ?thesis by simp
next
  case (KeyDown k)
  with assms keydown_ghost [of k w] show ?thesis
    by (auto simp add: step_def onGhostHitByDoor_def)
next
  case OverlayClick
  with assms show ?thesis
    by (simp add: step_def restartGame_def resetEnemy_def Let_def split: if_splits)
next
  case GhostModelLoaded
  with assms show ?thesis by (simp add: step_def ghostModelLoaded_def)
qed (use assms in \<open>simp_all add: step_ghost_other\<close>)

lemma step_outside:
  assumes "phase (ghostState w) \<noteq> Stalk"
    and "phase (ghostState (step w (Animate fr))) \<noteq> Stalk"
  shows "stalkTimer (ghostState (step w (Animate fr))) = stalkTimer (ghostState w) \<and>
         exposureTimer (ghostState (step w (Animate fr))) = exposureTimer (ghostState w)"
proof -
  let ?gs = "(gameState w)\<lparr>flashlightOn := isOn (update (delta fr) (flashlightSystem w))\<rparr>"
  from assms animate_ghost [of fr w] updateEnemy_outside [of "ghostState w" fr ?gs]
  show ?thesis
    by (auto simp add: step_def)
qed

text \<open>
  Claim C1, as amended. \<^verbatim>\<open>stalkTimer\<close> and \<^verbatim>\<open>exposureTimer\<close> are both 0 after every
  event that brings the ghost into the Stalk phase, after \<^verbatim>\<open>onGhostHitByDoor\<close> and after
  \<^verbatim>\<open>resetEnemy\<close>, and so after every exit from Stalk that is not made by a frame (the door
  breach and the restart). The two exits a frame makes do not reset them: after such a
  frame \<^verbatim>\<open>stalkTimer\<close> is its old value plus the frame's delta, and \<^verbatim>\<open>exposureTimer\<close>
  is its old value, plus the delta if the ghost was irradiated in the frame; so
  \<^verbatim>\<open>exposureTimer\<close> is 2.0 or more after the banishment to Retreat, and \<^verbatim>\<open>stalkTimer\<close>
  is 4.0 or more after the timeout to Attack. Frames outside Stalk leave both timers as
  they are.
\<close>

theorem stalk_timer_resets:
  "(phase (ghostState w) \<noteq> Stalk \<and> phase (ghostState (step w e)) = Stalk \<longrightarrow>
      stalkTimer (ghostState (step w e)) = 0 \<and> exposureTimer (ghostState (step w e)) = 0) \<and>
   stalkTimer (onGhostHitByDoor g) = 0 \<and> exposureTimer (onGhostHitByDoor g) = 0 \<and>
   stalkTimer (resetEnemy g) = 0 \<and> exposureTimer (resetEnemy g) = 0 \<and>
   (phase (ghostState w) = Stalk \<and> phase (ghostState (step w e)) \<noteq> Stalk \<and>
    (\<forall>fr. e \<noteq> Animate fr) \<longrightarrow>
      stalkTimer (ghostState (step w e)) = 0 \<and> exposureTimer (ghostState (step w e)) = 0) \<and>
   (phase (ghostState w) = Stalk \<and> phase (ghostState (step w (Animate fr))) \<noteq> Stalk \<longrightarrow>
      stalkTimer (ghostState (step w (Animate fr))) = stalkTimer (ghostState w) + delta fr \<and>
      exposureTimer (ghostState (step w (Animate fr))) =
        exposureTimer (ghostState w) +
        (if isIrradiated fr
              ((gameState w)\<lparr>flashlightOn := isOn (update (delta fr) (flashlightSystem w))\<rparr>)
              (ghostState w)
         then delta fr else 0) \<and>
      (phase (ghostState (step w (Animate fr))) = Retreat \<and>
         exposureTimer (ghostState (step w (Animate fr))) =
           exposureTimer (ghostState w) + delta fr \<and>
         2 \<le> exposureTimer (ghostState (step w (Animate fr)))
       \<or> phase (ghostState (step w (Animate fr))) = Attack \<and>
         exposureTimer (ghostState (step w (Animate fr))) < 2 \<and>
         4 \<le> stalkTimer (ghostState (step w (Animate fr))))) \<and>
   (phase (ghostState w) \<noteq> Stalk \<and> phase (ghostState (step w (Animate fr))) \<noteq> Stalk \<longrightarrow>
      stalkTimer (ghostState (step w (Animate fr))) = stalkTimer (ghostState w) \<and>
      exposureTimer (ghostState (step w (Animate fr))) = exposureTimer (ghostState w))"
proof -
  have entry: "phase (ghostState w) \<noteq> Stalk \<and> phase (ghostState (step w e)) = Stalk \<longrightarrow>
      stalkTimer (ghostState (step w e)) = 0 \<and> exposureTimer (ghostState (step w e)) = 0"
    using step_entry [of w e] by blast
  have forced: "stalkTimer (onGhostHitByDoor g) = 0 \<and> exposureTimer (onGhostHitByDoor g) = 0 \<and>
      stalkTimer (resetEnemy g) = 0 \<and> exposureTimer (resetEnemy g) = 0"
    by (simp add: onGhostHitByDoor_def resetEnemy_def Let_def)
  have other: "phase (ghostState w) = Stalk \<and> phase (ghostState (step w e)) \<noteq> Stalk \<and>
      (\<forall>fr. e \<noteq> Animate fr) \<longrightarrow>
      stalkTimer (ghostState (step w e)) = 0 \<and> exposureTimer (ghostState (step w e)) = 0"
    using step_exit_forced [of w e] by blast
  note frame = step_exit_frame [of w fr] and outside = step_outside [of w fr]
  from entry forced other frame outside show ?thesis
    by blast
qed

text \<open>
  The claim as it was stated fails. After two seconds in the light the ghost is banished:
  its phase is Retreat, and both timers stand at 2, also a frame later. After four
  seconds without light the ghost attacks, and its stalk timer stands at 4.
\<close>

theorem stalk_timers_counterexample:
  "list_all nonnegEvent (banishTrace @ [Animate (plainFrame 1 0.5 0.5)]) \<and>
   phase (ghostState (run initWorld irradiatedTrace)) = Stalk \<and>
   phase (ghostState (run initWorld banishTrace)) = Retreat \<and>
   exposureTimer (ghostState (run initWorld banishTrace)) = 2 \<and>
   stalkTimer (ghostState (run initWorld banishTrace)) = 2 \<and>
   phase (ghostState (run initWorld (banishTrace @ [Animate (plainFrame 1 0.5 0.5)]))) = Retreat \<and>
   exposureTimer (ghostState (run initWorld (banishTrace @ [Animate (plainFrame 1 0.5 0.5)]))) = 2 \<and>
   list_all nonnegEvent (butlast gameOverTrace) \<and>
   phase (ghostState (run initWorld depletionTrace)) = Stalk \<and>
   phase (ghostState (run initWorld (butlast gameOverTrace))) = Attack \<and>
   stalkTimer (ghostState (run initWorld (butlast gameOverTrace))) = 4"
proof -
  have n: "list_all nonnegEvent (banishTrace @ [Animate (plainFrame 1 0.5 0.5)])"
    "list_all nonnegEvent (butlast gameOverTrace)"
    by (simp_all add: banishTrace_def irradiatedTrace_def teleportTrace_def gameOverTrace_def
        depletionTrace_def plainFrame_def aimedFrame_def butlast_append)
  have r: "phase (ghostState (run initWorld (banishTrace @ [Animate (plainFrame 1 0.5 0.5)])))
             = Retreat"
    "exposureTimer (ghostState (run initWorld (banishTrace @ [Animate (plainFrame 1 0.5 0.5)])))
             = 2"
    unfolding run_append banish_world by (simp_all add: model_defs)
  from n r show ?thesis
    by (simp add: irradiated_world banish_world depletion_world attack_world)
qed

text \<open>
  The amended claim on the same sessions: the teleport enters Stalk with both timers at
  0; the door shut on a ghost that has stalked for a second resets them; the banishing
  frame leaves them at 2, and so does the frame after it. When the light is switched
  off after the first second instead, the frame that ends the stalk time leaves the
  attacking ghost with a stalk timer of 4 and its exposure of 1.
\<close>

theorem stalk_timer_resets_witness:
  "phase (ghostState (run initWorld (butlast teleportTrace))) = Wander \<and>
   phase (ghostState (run initWorld teleportTrace)) = Stalk \<and>
   stalkTimer (ghostState (run initWorld teleportTrace)) = 0 \<and>
   exposureTimer (ghostState (run initWorld teleportTrace)) = 0 \<and>
   phase (ghostState (run initWorld irradiatedTrace)) = Stalk \<and>
   exposureTimer (ghostState (run initWorld irradiatedTrace)) = 1 \<and>
   phase (ghostState (step (run initWorld irradiatedTrace) (KeyDown KeyQ))) = Retreat \<and>
   stalkTimer (ghostState (step (run initWorld irradiatedTrace) (KeyDown KeyQ))) = 0 \<and>
   exposureTimer (ghostState (step (run initWorld irradiatedTrace) (KeyDown KeyQ))) = 0 \<and>
   phase (ghostState (step (run initWorld irradiatedTrace) (Animate (aimedFrame 1)))) = Retreat \<and>
   stalkTimer (ghostState (step (run initWorld irradiatedTrace) (Animate (aimedFrame 1)))) = 2 \<and>
   exposureTimer (ghostState (step (run initWorld irradiatedTrace) (Animate (aimedFrame 1)))) = 2 \<and>
   phase (ghostState (step (run initWorld banishTrace) (Animate (plainFrame 1 0.5 0.5)))) = Retreat \<and>
   stalkTimer (ghostState (step (run initWorld banishTrace) (Animate (plainFrame 1 0.5 0.5)))) = 2 \<and>
   exposureTimer (ghostState (step (run initWorld banishTrace) (Animate (plainFrame 1 0.5 0.5)))) = 2 \<and>
   phase (ghostState (run initWorld timeoutTrace)) = Stalk \<and>
   stalkTimer (ghostState (run initWorld timeoutTrace)) = 1 \<and>
   exposureTimer (ghostState (run initWorld timeoutTrace)) = 1 \<and>
   phase (ghostState (step (run initWorld timeoutTrace) (Animate (plainFrame 3 0.5 0.5)))) = Attack \<and>
   stalkTimer (ghostState (step (run initWorld timeoutTrace) (Animate (plainFrame 3 0.5 0.5)))) = 4 \<and>
   exposureTimer (ghostState (step (run initWorld timeoutTrace) (Animate (plainFrame 3 0.5 0.5)))) = 1"
proof -
  let ?w3 = "run initWorld timeoutTrace"
  let ?f3 = "plainFrame 3 0.5 0.5"
  have a: "phase (ghostState ?w3) = Stalk" "stalkTimer (ghostState ?w3) = 1"
    "exposureTimer (ghostState ?w3) = 1"
    "phase (ghostState (step ?w3 (Animate ?f3))) = Attack"
    "isIrradiated ?f3
       ((gameState ?w3)\<lparr>flashlightOn := isOn (update (delta ?f3) (flashlightSystem ?w3))\<rparr>)
       (ghostState ?w3) = False"
    "delta ?f3 = 3"
    unfolding timeout_world by (simp_all add: model_defs isIrradiated_def)
  have timeout: "stalkTimer (ghostState (step ?w3 (Animate ?f3))) = 4 \<and>
                 exposureTimer (ghostState (step ?w3 (Animate ?f3))) = 1"
    using stalk_timer_resets [of ?w3 "KeyDown KeyQ" initGhost ?f3] a by simp
  let ?w0 = "run initWorld (butlast teleportTrace)"
  let ?e0 = "Animate (plainFrame 1.6 0.25 0.25)"
  let ?w1 = "run initWorld irradiatedTrace"
  let ?w2 = "run initWorld banishTrace"
  have t: "step ?w0 ?e0 = run initWorld teleportTrace"
    by (simp add: teleportTrace_def run_def)
  have b: "step ?w1 (Animate (aimedFrame 1)) = ?w2"
    by (simp add: banishTrace_def run_def)
  have p0: "phase (ghostState ?w0) = Wander"
    by (simp add: teleportTrace_def model_defs)
  have p1: "phase (ghostState (run initWorld teleportTrace)) = Stalk"
    by (simp add: teleport_world)
  have q: "phase (ghostState ?w1) = Stalk" "stalkTimer (ghostState ?w1) = 1"
    "exposureTimer (ghostState ?w1) = 1"
    "phase (ghostState (step ?w1 (KeyDown KeyQ))) = Retreat"
    "\<forall>fr. KeyDown KeyQ \<noteq> Animate fr"
    unfolding irradiated_world by (simp_all add: model_defs)
  have p2: "phase (ghostState ?w2) = Retreat"
    by (simp add: banish_world)
  have p3: "phase (ghostState (step ?w2 (Animate (plainFrame 1 0.5 0.5)))) = Retreat"
    unfolding banish_world by (simp add: model_defs)
  have s2: "stalkTimer (ghostState ?w2) = 2" "exposureTimer (ghostState ?w2) = 2"
    by (simp_all add: banish_world)
  have entry: "stalkTimer (ghostState (run initWorld teleportTrace)) = 0 \<and>
               exposureTimer (ghostState (run initWorld teleportTrace)) = 0"
    using stalk_timer_resets [of ?w0 ?e0 initGhost "plainFrame 1.6 0.25 0.25"] p0 p1
    unfolding t by simp
  have forced: "stalkTimer (ghostState (step ?w1 (KeyDown KeyQ))) = 0 \<and>
                exposureTimer (ghostState (step ?w1 (KeyDown KeyQ))) = 0"
    using stalk_timer_resets [of ?w1 "KeyDown KeyQ" initGhost "aimedFrame 1"] q by simp
  have exit: "stalkTimer (ghostState ?w2) = 2 \<and> exposureTimer (ghostState ?w2) = 2"
    using stalk_timer_resets [of ?w1 "KeyDown KeyQ" initGhost "aimedFrame 1"] q p2
    unfolding b by (simp add: aimedFrame_fields)
  have outside: "stalkTimer (ghostState (step ?w2 (Animate (plainFrame 1 0.5 0.5)))) = 2 \<and>
                 exposureTimer (ghostState (step ?w2 (Animate (plainFrame 1 0.5 0.5)))) = 2"
    using stalk_timer_resets [of ?w2 "KeyDown KeyQ" initGhost "plainFrame 1 0.5 0.5"] p2 p3 s2
    by simp
  from p0 p1 q p2 p3 a timeout entry forced exit outside show ?thesis
    unfolding b by simp
qed

end
